theory Spec2Isabelle
  imports Main "HOL-Library.AList" "HOL-Library.Sublist"
begin

section \<open>Python strings and lists\<close>

text \<open>
  Texts are \<open>string\<close>s, one \<open>char\<close> per character, so \<open>length\<close> is Python's
  \<open>len\<close> on the texts the model covers (characters below U+0100).
\<close>

text \<open>\<open>sep.join(parts)\<close>.\<close>

fun join :: "string \<Rightarrow> string list \<Rightarrow> string" where
  "join sep [] = []"
| "join sep [x] = x"
| "join sep (x # y # ys) = x @ sep @ join sep (y # ys)"

text \<open>
  The slice \<open>xs[:k]\<close>: a negative \<open>k\<close> counts from the end, and a stop before
  the start gives the empty list.
\<close>

definition py_slice_to :: "int \<Rightarrow> 'a list \<Rightarrow> 'a list" where
  "py_slice_to k xs =
     (if k < 0 then take (nat (int (length xs) + k)) xs else take (nat k) xs)"

text \<open>
  \<open>str.strip()\<close> and \<open>str.lower()\<close> on characters below U+0100: the white space is
  tab, line feed, vertical tab, form feed, carriage return, the separators U+001C to
  U+001F, the space, U+0085 and U+00A0; the capitals are A to Z and U+00C0 to U+00DE
  without the multiplication sign U+00D7.
\<close>

definition is_space :: "char \<Rightarrow> bool" where
  "is_space c =
     (let n = (of_char c :: nat) in (9 \<le> n \<and> n \<le> 13) \<or> (28 \<le> n \<and> n \<le> 32) \<or> n = 133 \<or> n = 160)"

definition strip :: "string \<Rightarrow> string" where
  "strip s = rev (dropWhile is_space (rev (dropWhile is_space s)))"

definition lower_char :: "char \<Rightarrow> char" where
  "lower_char c =
     (let n = (of_char c :: nat) in
      if (65 \<le> n \<and> n \<le> 90) \<or> (192 \<le> n \<and> n \<le> 222 \<and> n \<noteq> 215) then char_of (n + 32) else c)"

definition lower :: "string \<Rightarrow> string" where
  "lower s = map lower_char s"

section \<open>Configuration\<close>

text \<open>
  The keys of the configuration dictionary that the modelled functions read. \<open>None\<close>
  is an absent key; the accessor functions below supply the default that the source
  passes to \<open>dict.get\<close>.
\<close>

record config =
  base_url :: "string option"
  login_url :: "string option"
  upload_url :: "string option"
  upload_timeout :: "int option"
  max_title_length :: "int option"

definition cfg_base_url :: "config \<Rightarrow> string" where
  "cfg_base_url cfg = (case base_url cfg of None \<Rightarrow> ''https://www.tiktok.com'' | Some u \<Rightarrow> u)"

definition cfg_login_url :: "config \<Rightarrow> string" where
  "cfg_login_url cfg =
     (case login_url cfg of None \<Rightarrow> ''https://www.tiktok.com/login'' | Some u \<Rightarrow> u)"


definition cfg_upload_timeout :: "config \<Rightarrow> int" where
  "cfg_upload_timeout cfg = (case upload_timeout cfg of None \<Rightarrow> 300 | Some n \<Rightarrow> n)"

definition cfg_max_title_length :: "config \<Rightarrow> int" where
  "cfg_max_title_length cfg = (case max_title_length cfg of None \<Rightarrow> 150 | Some n \<Rightarrow> n)"

definition default_config :: config where
  "default_config =
     \<lparr>base_url = None, login_url = None, upload_url = None, upload_timeout = None,
      max_title_length = None\<rparr>"

section \<open>Caption text (\<open>TikTokUploader._fill_caption\<close>, the text it builds)\<close>

text \<open>
  \<^verbatim>\<open>
  caption_parts = []
  if title: caption_parts.append(title)
  if tags:
      hashtags = " ".join(f"#{tag}" for tag in tags)
      caption_parts.append(hashtags)
  full_caption = " ".join(caption_parts)
  \<close>
\<close>

definition hashtags :: "string list \<Rightarrow> string" where
  "hashtags tags = join '' '' (map (\<lambda>tag. CHR ''#'' # tag) tags)"

definition caption_parts :: "string \<Rightarrow> string list \<Rightarrow> string list" where
  "caption_parts title tags =
     (if title \<noteq> [] then [title] else []) @ (if tags \<noteq> [] then [hashtags tags] else [])"

definition compose_caption :: "string \<Rightarrow> string list \<Rightarrow> string" where
  "compose_caption title tags = join '' '' (caption_parts title tags)"

text \<open>
  \<^verbatim>\<open>
  max_length = self.config.get("upload", {}).get("max_title_length", 150)
  if len(full_caption) > max_length:
      full_caption = full_caption[:max_length-3] + "..."
  \<close>
\<close>

definition truncate_caption :: "int \<Rightarrow> string \<Rightarrow> string" where
  "truncate_caption max_length full_caption =
     (if int (length full_caption) > max_length
      then py_slice_to (max_length - 3) full_caption @ ''...''
      else full_caption)"

text \<open>The text that \<open>_fill_caption\<close> goes on to type, once it is not empty.\<close>

definition caption_text :: "config \<Rightarrow> string \<Rightarrow> string list \<Rightarrow> string" where
  "caption_text cfg title tags =
     truncate_caption (cfg_max_title_length cfg) (compose_caption title tags)"

text \<open>
  The hashtag text as the specification words it: the tags, each behind a \<open>#\<close>,
  separated by single spaces.
\<close>

fun spaced_hashtags :: "string list \<Rightarrow> string" where
  "spaced_hashtags [] = []"
| "spaced_hashtags [t] = CHR ''#'' # t"
| "spaced_hashtags (t # u # us) = CHR ''#'' # t @ '' '' @ spaced_hashtags (u # us)"

section \<open>Exceptions\<close>

text \<open>
  Every value of \<open>error\<close> is an exception derived from Python's \<open>Exception\<close>, so
  both \<open>except Exception\<close> and a bare \<open>except\<close> catch it. A function that can
  raise returns \<open>error + 'a\<close>, \<open>Inl\<close> being the exception that leaves it.
\<close>

datatype error =
    WebDriverError
  | OSError
  | ValueError
  | RuntimeError
  | AttributeError
  | CouldNotConnect nat

section \<open>Driver provisioning (\<open>browser.py\<close>)\<close>

text \<open>
  What \<open>BrowserManager\<close> meets outside itself: the environment variable, the profile
  directory, the remote endpoint at each connection attempt, the local browser, and the
  driver's answers to the calls made on it.
\<close>

record browser_env =
  env_selenium_remote_url :: "string option"
  profile_mkdir_ok :: bool
  remote_connects :: "nat \<Rightarrow> bool"
  local_starts :: bool
  implicitly_wait_ok :: bool
  set_page_load_timeout_ok :: bool
  quit_ok :: bool

datatype handle = RemoteDriver | LocalDriver

datatype browser_effect =
    MakeProfileDir
  | ConnectRemote nat
  | SleepSeconds nat
  | StartLocal
  | SetFileDetector
  | ImplicitlyWait
  | SetPageLoadTimeout
  | Quit handle

text \<open>
  The manager's fields \<open>self.driver\<close> and \<open>self.is_remote\<close> (unset until
  \<open>create_driver\<close> assigns it), and the calls made so far on the outside world.
\<close>

record manager =
  driver :: "handle option"
  is_remote :: "bool option"
  effects :: "browser_effect list"

definition effect :: "browser_effect \<Rightarrow> manager \<Rightarrow> manager" where
  "effect a m = m\<lparr>effects := effects m @ [a]\<rparr>"

text \<open>
  \<^verbatim>\<open>
  max_retries = 30
  for attempt in range(max_retries):
      try:
          self.driver = webdriver.Remote(command_executor=selenium_url, options=chrome_options)
          break
      except Exception as e:
          if attempt < max_retries - 1:
              time.sleep(2)
          else:
              raise Exception(f"Could not connect to Selenium after {max_retries} attempts: {e}")
  \<close>
  \<open>connect_loop env max_retries attempt m\<close> is the loop from \<open>attempt\<close> on.
\<close>

function connect_loop ::
  "browser_env \<Rightarrow> nat \<Rightarrow> nat \<Rightarrow> manager \<Rightarrow> (error + unit) \<times> manager" where
  "connect_loop env max_retries attempt m =
     (if attempt < max_retries then
        (let m1 = effect (ConnectRemote attempt) m in
         if remote_connects env attempt then (Inr (), m1\<lparr>driver := Some RemoteDriver\<rparr>)
         else if int attempt < int max_retries - 1
           then connect_loop env max_retries (attempt + 1) (effect (SleepSeconds 2) m1)
           else (Inl (CouldNotConnect max_retries), m1))
      else (Inr (), m))"
  by pat_completeness auto
termination
  by (relation "measure (\<lambda>(env, max_retries, attempt, m). max_retries - attempt)") auto

declare connect_loop.simps [simp del]

text \<open>
  The two calls that end \<open>create_driver\<close>:
  \<open>self.driver.implicitly_wait(...)\<close> and \<open>self.driver.set_page_load_timeout(...)\<close>.
\<close>

definition set_timeouts :: "browser_env \<Rightarrow> manager \<Rightarrow> (error + handle option) \<times> manager" where
  "set_timeouts env m =
     (let m1 = effect ImplicitlyWait m in
      if \<not> implicitly_wait_ok env then (Inl WebDriverError, m1)
      else
        let m2 = effect SetPageLoadTimeout m1 in
        if \<not> set_page_load_timeout_ok env then (Inl WebDriverError, m2)
        else (Inr (driver m2), m2))"

text \<open>
  \<open>BrowserManager.create_driver\<close>. The option lists it builds do not bear on its control
  flow and are left out; the profile directory is created before the driver. The
  remote branch is taken when \<open>SELENIUM_REMOTE_URL\<close> is set to a non-empty text
  (\<open>if selenium_url:\<close>). The result is the driver handle the method returns.
\<close>

definition create_driver :: "browser_env \<Rightarrow> manager \<Rightarrow> (error + handle option) \<times> manager" where
  "create_driver env m =
     (let m1 = effect MakeProfileDir m in
      if \<not> profile_mkdir_ok env then (Inl OSError, m1)
      else
        case env_selenium_remote_url env of
          Some (c # cs) \<Rightarrow>
            (case connect_loop env 30 0 m1 of
               (Inl e, m2) \<Rightarrow> (Inl e, m2)
             | (Inr u, m2) \<Rightarrow>
                 (case driver m2 of
                    None \<Rightarrow> (Inl AttributeError, m2)
                  | Some h \<Rightarrow> set_timeouts env ((effect SetFileDetector m2)\<lparr>is_remote := Some True\<rparr>)))
        | _ \<Rightarrow>
            (let m2 = effect StartLocal m1 in
             if \<not> local_starts env then (Inl WebDriverError, m2)
             else set_timeouts env (m2\<lparr>driver := Some LocalDriver, is_remote := Some False\<rparr>)))"

text \<open>
  \<^verbatim>\<open>
  def close(self):
      if self.driver:
          try:
              self.driver.quit()
          except Exception as e:
              logger.warning(f"Error closing browser: {e}")
          self.driver = None
  \<close>
\<close>

definition driver_quit :: "browser_env \<Rightarrow> handle \<Rightarrow> manager \<Rightarrow> (error + unit) \<times> manager" where
  "driver_quit env h m = (if quit_ok env then Inr () else Inl WebDriverError, effect (Quit h) m)"

definition close :: "browser_env \<Rightarrow> manager \<Rightarrow> (error + unit) \<times> manager" where
  "close env m =
     (case driver m of
        None \<Rightarrow> (Inr (), m)
      | Some h \<Rightarrow>
          (case driver_quit env h m of
             (Inl e, m1) \<Rightarrow> (Inr (), m1\<lparr>driver := None\<rparr>)
           | (Inr u, m1) \<Rightarrow> (Inr (), m1\<lparr>driver := None\<rparr>)))"

text \<open>
  The calls of a run of the retry loop that stops at attempt \<open>i\<close>: attempts
  \<open>0 .. i\<close>, each but the last followed by the sleep of two seconds.
\<close>

definition attempts_through :: "nat \<Rightarrow> browser_effect list" where
  "attempts_through i =
     concat (map (\<lambda>j. [ConnectRemote j, SleepSeconds 2]) [0..<i]) @ [ConnectRemote i]"

text \<open>The number of connection attempts among the calls made.\<close>

definition connect_attempts :: "browser_effect list \<Rightarrow> nat" where
  "connect_attempts es =
     length (filter (\<lambda>a. case a of ConnectRemote j \<Rightarrow> True | _ \<Rightarrow> False) es)"

section \<open>The browser as the session manager and the uploader see it\<close>

text \<open>
  Times are in milliseconds. A cookie record is the dictionary read from the cookie
  file, kept as an association list; \<open>'v\<close> is the type of its JSON values.
\<close>

type_synonym 'v cookie = "(string \<times> 'v) list"

text \<open>
  A web element as returned by a lookup: what reading its text, asking whether it is
  displayed or enabled, reading its size, clicking it and typing into it will give.
  \<open>None\<close> and \<open>False\<close> in the last three stand for the call raising.
\<close>

record element =
  e_text :: "string option"
  e_displayed :: "bool option"
  e_enabled :: "bool option"
  e_size_ok :: bool
  e_click_ok :: bool
  e_send_keys_ok :: bool

datatype by_kind = CssSelector | XPath | TagName

datatype js_value = JsNull | JsBool bool | JsString string | JsElement element

text \<open>
  The scripts that the modelled functions pass to \<open>execute_script\<close>, by what they do:
  removing the tutorial overlays, setting the caption editor's content to a text, and
  scrolling to the bottom of the page.
\<close>

datatype script = RemoveOverlays | SetCaption string | ScrollToBottom

text \<open>
  The browser at one instant: its answer to each call on the driver. \<open>False\<close> and
  \<open>None\<close> stand for the call raising.
\<close>

record 'v page =
  get_ok :: "string \<Rightarrow> bool"
  find_all :: "by_kind \<Rightarrow> string \<Rightarrow> element list option"
  add_cookie_ok :: "'v cookie \<Rightarrow> bool"
  refresh_ok :: bool
  get_cookies_result :: "'v cookie list option"
  current_url :: "string option"
  execute_script_result :: "script \<Rightarrow> js_value option"
  perform_ok :: bool

text \<open>
  What \<open>exists()\<close> can find at a path, and how writing the cookie file can go:
  \<open>open(path, "w")\<close> raises and the file is as it was, or the file is opened, which
  empties it, and \<open>json.dump\<close> raises, or the file is written.
\<close>

datatype entry_kind = RegularFile | Directory | OtherEntry

datatype write_outcome = Written | OpenRaises | DumpRaises

text \<open>
  The environment of a run: the browser over time, how long a call on the driver issued
  at a given time takes, the environment variable, the file system. Nothing constrains
  it: a theorem about every environment is about every behaviour of the browser.
  \<open>resolve_result\<close> is \<open>Path(video_path).resolve()\<close>, which raises on a path with
  a NUL byte or a symlink loop; \<open>path_entry\<close> is what is at the resolved path,
  \<open>None\<close> when \<open>exists()\<close> finds nothing and \<open>Inl\<close> when it raises (a name that is
  too long, a directory that may not be searched).
\<close>

record 'v env =
  page_at :: "nat \<Rightarrow> 'v page"
  latency :: "nat \<Rightarrow> nat"
  selenium_remote_url :: "string option"
  resolve_result :: "string \<Rightarrow> error + string"
  path_entry :: "string \<Rightarrow> error + entry_kind option"
  mkdir_ok :: "nat \<Rightarrow> bool"
  write_outcome :: "nat \<Rightarrow> write_outcome"
  random_ms :: "nat \<Rightarrow> nat"
  find_file_input_result :: "nat \<Rightarrow> element option option"
  click_post_button_result :: "nat \<Rightarrow> bool"
  stage_ms :: "nat \<Rightarrow> nat"

text \<open>
  The cookie file \<open>data/cookies/tiktok_cookies.json\<close>: not there, in a directory that
  may not be searched (\<open>exists()\<close> raises), not readable as JSON, or a JSON list, whose
  entries are cookie records or something else.
\<close>

datatype 'v json_entry = Record "'v cookie" | NotRecord

datatype 'v cookie_file = Missing | Inaccessible | Unreadable | Cookies "'v json_entry list"

datatype log =
    UploadCompleted
  | UploadWaitTimedOut
  | PostCompletedUrlChange
  | PostCompletedIndicator
  | PostNotConfirmed
  | NoCaptionToAdd
  | CaptionInputNotFound

text \<open>
  The calls a run makes, in order: the calls on the driver, the calls on an element
  that act on the page, the sleeps, the accesses to the file system, the helper stages
  of the upload that are not modelled further, and the log lines that tell the exits of
  the waits apart. Reads of an element's attributes and the other log lines are not
  recorded.
\<close>

datatype 'v action =
    Get string
  | FindElement by_kind string
  | FindElements by_kind string
  | AddCookie "'v cookie"
  | Refresh
  | GetCookies
  | CurrentUrl
  | ExecuteScript script
  | Click
  | PerformActions
  | SendKeys string
  | Sleep nat
  | ResolvePath string
  | VideoPathExists string
  | CookiePathExists
  | ReadCookieFile
  | MakeCookieDir
  | WriteCookieFile "'v cookie list"
  | Stage string
  | Log log

text \<open>The state of a run: the clock, the calls made so far, the cookie file.\<close>

record 'v world =
  now :: nat
  trace :: "'v action list"
  cookie_file :: "'v cookie_file"

definition record_action :: "'v action \<Rightarrow> 'v world \<Rightarrow> 'v world" where
  "record_action a w = w\<lparr>trace := trace w @ [a]\<rparr>"

text \<open>\<open>time.sleep\<close>.\<close>

definition sleep :: "nat \<Rightarrow> 'v world \<Rightarrow> 'v world" where
  "sleep ms w = w\<lparr>now := now w + ms, trace := trace w @ [Sleep ms]\<rparr>"

text \<open>
  A call on the driver is recorded and takes its time; its answer is the one of the
  browser at the time of the call.
\<close>

definition driver_call :: "'v env \<Rightarrow> 'v action \<Rightarrow> 'v world \<Rightarrow> 'v world" where
  "driver_call env a w = w\<lparr>now := now w + latency env (now w), trace := trace w @ [a]\<rparr>"

definition driver_get :: "'v env \<Rightarrow> string \<Rightarrow> 'v world \<Rightarrow> (error + unit) \<times> 'v world" where
  "driver_get env u w =
     (if get_ok (page_at env (now w)) u then Inr () else Inl WebDriverError,
      driver_call env (Get u) w)"

definition find_elements ::
  "'v env \<Rightarrow> by_kind \<Rightarrow> string \<Rightarrow> 'v world \<Rightarrow> (error + element list) \<times> 'v world" where
  "find_elements env b v w =
     (case find_all (page_at env (now w)) b v of
        None \<Rightarrow> Inl WebDriverError
      | Some es \<Rightarrow> Inr es,
      driver_call env (FindElements b v) w)"

text \<open>\<open>find_element\<close> returns the first match and raises when there is none.\<close>

definition find_element ::
  "'v env \<Rightarrow> by_kind \<Rightarrow> string \<Rightarrow> 'v world \<Rightarrow> (error + element) \<times> 'v world" where
  "find_element env b v w =
     (case find_all (page_at env (now w)) b v of
        None \<Rightarrow> Inl WebDriverError
      | Some [] \<Rightarrow> Inl WebDriverError
      | Some (e # es) \<Rightarrow> Inr e,
      driver_call env (FindElement b v) w)"

definition driver_add_cookie ::
  "'v env \<Rightarrow> 'v cookie \<Rightarrow> 'v world \<Rightarrow> (error + unit) \<times> 'v world" where
  "driver_add_cookie env c w =
     (if add_cookie_ok (page_at env (now w)) c then Inr () else Inl WebDriverError,
      driver_call env (AddCookie c) w)"

definition driver_refresh :: "'v env \<Rightarrow> 'v world \<Rightarrow> (error + unit) \<times> 'v world" where
  "driver_refresh env w =
     (if refresh_ok (page_at env (now w)) then Inr () else Inl WebDriverError,
      driver_call env Refresh w)"

definition driver_get_cookies ::
  "'v env \<Rightarrow> 'v world \<Rightarrow> (error + 'v cookie list) \<times> 'v world" where
  "driver_get_cookies env w =
     (case get_cookies_result (page_at env (now w)) of
        None \<Rightarrow> Inl WebDriverError
      | Some cs \<Rightarrow> Inr cs,
      driver_call env GetCookies w)"

definition driver_current_url :: "'v env \<Rightarrow> 'v world \<Rightarrow> (error + string) \<times> 'v world" where
  "driver_current_url env w =
     (case current_url (page_at env (now w)) of
        None \<Rightarrow> Inl WebDriverError
      | Some u \<Rightarrow> Inr u,
      driver_call env CurrentUrl w)"

definition execute_script ::
  "'v env \<Rightarrow> script \<Rightarrow> 'v world \<Rightarrow> (error + js_value) \<times> 'v world" where
  "execute_script env js w =
     (case execute_script_result (page_at env (now w)) js of
        None \<Rightarrow> Inl WebDriverError
      | Some r \<Rightarrow> Inr r,
      driver_call env (ExecuteScript js) w)"

section \<open>Session manager (\<open>login.py\<close>)\<close>

definition login_indicators :: "string list" where
  "login_indicators =
     [''[data-e2e=\"profile-icon\"]'', ''[data-e2e=\"nav-profile\"]'', ''a[href*=\"/profile\"]'']"

text \<open>
  \<^verbatim>\<open>
  for selector in login_indicators:
      try:
          element = self.driver.find_element(By.CSS_SELECTOR, selector)
          if element:
              return True
      except:
          continue
  return False
  \<close>
  An element that is found is truthy.
\<close>

fun probe_indicators ::
  "'v env \<Rightarrow> string list \<Rightarrow> 'v world \<Rightarrow> (error + bool) \<times> 'v world" where
  "probe_indicators env [] w = (Inr False, w)"
| "probe_indicators env (selector # selectors) w =
     (case find_element env CssSelector selector w of
        (Inr element, w1) \<Rightarrow> (Inr True, w1)
      | (Inl e, w1) \<Rightarrow> probe_indicators env selectors w1)"

text \<open>The body of the \<open>try\<close> of \<open>is_logged_in\<close>.\<close>

definition is_logged_in_body ::
  "'v env \<Rightarrow> config \<Rightarrow> 'v world \<Rightarrow> (error + bool) \<times> 'v world" where
  "is_logged_in_body env cfg w =
     (case driver_get env (cfg_base_url cfg) w of
        (Inl e, w1) \<Rightarrow> (Inl e, w1)
      | (Inr u, w1) \<Rightarrow> probe_indicators env login_indicators (sleep 3000 w1))"

text \<open>\<open>LoginManager.is_logged_in\<close>: \<open>except Exception as e: ... return False\<close>.\<close>

definition is_logged_in ::
  "'v env \<Rightarrow> config \<Rightarrow> 'v world \<Rightarrow> (error + bool) \<times> 'v world" where
  "is_logged_in env cfg w =
     (case is_logged_in_body env cfg w of
        (Inl e, w1) \<Rightarrow> (Inr False, w1)
      | (Inr b, w1) \<Rightarrow> (Inr b, w1))"

text \<open>
  \<^verbatim>\<open>
  cookie.pop("sameSite", None)
  cookie.pop("storeId", None)
  \<close>
\<close>

definition sanitize :: "'v cookie \<Rightarrow> 'v cookie" where
  "sanitize cookie = AList.delete ''storeId'' (AList.delete ''sameSite'' cookie)"

text \<open>
  \<^verbatim>\<open>
  for cookie in cookies:
      cookie.pop("sameSite", None)
      cookie.pop("storeId", None)
      try:
          self.driver.add_cookie(cookie)
      except Exception as e:
          logger.debug(f"Could not add cookie: {e}")
  \<close>
  An entry that is not a record has no \<open>pop\<close>: the loop raises there, outside the
  inner \<open>try\<close>.
\<close>

fun add_cookies ::
  "'v env \<Rightarrow> 'v json_entry list \<Rightarrow> 'v world \<Rightarrow> (error + unit) \<times> 'v world" where
  "add_cookies env [] w = (Inr (), w)"
| "add_cookies env (NotRecord # cookies) w = (Inl AttributeError, w)"
| "add_cookies env (Record cookie # cookies) w =
     (case driver_add_cookie env (sanitize cookie) w of
        (Inl e, w1) \<Rightarrow> add_cookies env cookies w1
      | (Inr u, w1) \<Rightarrow> add_cookies env cookies w1)"

text \<open>
  \<open>open\<close> and \<open>json.load\<close> of the cookie file: a file that cannot be opened or is
  not JSON makes the \<open>try\<close> of \<open>load_cookies\<close> raise; a JSON value that is not a
  list is taken as a list of entries that are not records.
\<close>

definition read_cookie_file :: "'v world \<Rightarrow> (error + 'v json_entry list) \<times> 'v world" where
  "read_cookie_file w =
     (case cookie_file w of
        Cookies cookies \<Rightarrow> Inr cookies
      | Unreadable \<Rightarrow> Inl ValueError
      | Inaccessible \<Rightarrow> Inl OSError
      | Missing \<Rightarrow> Inl OSError,
      record_action ReadCookieFile w)"

text \<open>The body of the \<open>try\<close> of \<open>load_cookies\<close>.\<close>

definition load_cookies_body ::
  "'v env \<Rightarrow> config \<Rightarrow> 'v world \<Rightarrow> (error + bool) \<times> 'v world" where
  "load_cookies_body env cfg w =
     (case driver_get env (cfg_base_url cfg) w of
        (Inl e, w1) \<Rightarrow> (Inl e, w1)
      | (Inr u, w1) \<Rightarrow>
          (case read_cookie_file (sleep 2000 w1) of
             (Inl e, w2) \<Rightarrow> (Inl e, w2)
           | (Inr cookies, w2) \<Rightarrow>
               (case add_cookies env cookies w2 of
                  (Inl e, w3) \<Rightarrow> (Inl e, w3)
                | (Inr u, w3) \<Rightarrow>
                    (case driver_refresh env w3 of
                       (Inl e, w4) \<Rightarrow> (Inl e, w4)
                     | (Inr u, w4) \<Rightarrow> (Inr True, sleep 3000 w4)))))"

text \<open>
  \<open>LoginManager.load_cookies\<close>, called as the source calls it, on the default cookie
  file. \<open>cookie_path.exists()\<close> is outside the \<open>try\<close>.
\<close>

definition load_cookies ::
  "'v env \<Rightarrow> config \<Rightarrow> 'v world \<Rightarrow> (error + bool) \<times> 'v world" where
  "load_cookies env cfg w =
     (let w0 = record_action CookiePathExists w in
      case cookie_file w0 of
        Missing \<Rightarrow> (Inr False, w0)
      | Inaccessible \<Rightarrow> (Inl OSError, w0)
      | _ \<Rightarrow>
          (case load_cookies_body env cfg w0 of
             (Inl e, w1) \<Rightarrow> (Inr False, w1)
           | (Inr b, w1) \<Rightarrow> (Inr b, w1)))"

text \<open>
  \<open>LoginManager.save_cookies\<close>. The directory is made outside the \<open>try\<close>.
\<close>

definition save_cookies :: "'v env \<Rightarrow> 'v world \<Rightarrow> (error + bool) \<times> 'v world" where
  "save_cookies env w =
     (let w0 = record_action MakeCookieDir w in
      if \<not> mkdir_ok env (now w0) then (Inl OSError, w0)
      else
        case driver_get_cookies env w0 of
          (Inl e, w1) \<Rightarrow> (Inr False, w1)
        | (Inr cookies, w1) \<Rightarrow>
            (let w2 = record_action (WriteCookieFile cookies) w1 in
             case write_outcome env (now w2) of
               OpenRaises \<Rightarrow> (Inr False, w2)
             | DumpRaises \<Rightarrow> (Inr False, w2\<lparr>cookie_file := Unreadable\<rparr>)
             | Written \<Rightarrow> (Inr True, w2\<lparr>cookie_file := Cookies (map Record cookies)\<rparr>)))"

lemma now_driver_call: "now w \<le> now (driver_call env a w)"
  by (simp add: driver_call_def)

lemma now_find_element: "now w \<le> now (snd (find_element env b v w))"
  by (simp add: find_element_def driver_call_def)

lemma now_probe_indicators: "now w \<le> now (snd (probe_indicators env selectors w))"
proof (induction selectors arbitrary: w)
  case Nil
  show ?case by simp
next
  case (Cons selector selectors)
  obtain r w1 where f: "find_element env CssSelector selector w = (r, w1)"
    by (cases "find_element env CssSelector selector w")
  have "now w \<le> now w1"
    using now_find_element [of w env CssSelector selector] f by simp
  moreover have "now w1 \<le> now (snd (probe_indicators env selectors w1))"
    by (rule Cons.IH)
  ultimately show ?case
    using f by (cases r) auto
qed

lemma now_is_logged_in: "now w \<le> now (snd (is_logged_in env cfg w))"
proof -
  have a: "now w \<le> now (driver_call env (Get (cfg_base_url cfg)) w)"
    by (rule now_driver_call)
  have b: "now w \<le> now (snd (probe_indicators env login_indicators
      (sleep 3000 (driver_call env (Get (cfg_base_url cfg)) w))))"
    using now_probe_indicators [of "sleep 3000 (driver_call env (Get (cfg_base_url cfg)) w)"
        env login_indicators] a
    by (simp add: sleep_def)
  show ?thesis
    using a b
    by (auto simp: is_logged_in_def is_logged_in_body_def driver_get_def
        split: prod.splits sum.splits)
qed

text \<open>
  \<^verbatim>\<open>
  start_time = time.time()
  while time.time() - start_time < timeout:
      if self.is_logged_in():
          self.save_cookies()
          return True
      time.sleep(5)
  return False
  \<close>
  \<open>timeout\<close> is in seconds.
\<close>

function manual_login_loop ::
  "'v env \<Rightarrow> config \<Rightarrow> nat \<Rightarrow> int \<Rightarrow> 'v world \<Rightarrow> (error + bool) \<times> 'v world" where
  "manual_login_loop env cfg start_time timeout w =
     (if int (now w) - int start_time < timeout * 1000 then
        (case is_logged_in env cfg w of
           (Inl e, w1) \<Rightarrow> (Inl e, w1)
         | (Inr True, w1) \<Rightarrow>
             (case save_cookies env w1 of
                (Inl e, w2) \<Rightarrow> (Inl e, w2)
              | (Inr saved, w2) \<Rightarrow> (Inr True, w2))
         | (Inr False, w1) \<Rightarrow> manual_login_loop env cfg start_time timeout (sleep 5000 w1))
      else (Inr False, w))"
  by pat_completeness auto
termination
proof (relation "measure (\<lambda>(env, cfg, start_time, timeout, w).
    nat (timeout * 1000 - (int (now w) - int start_time)))", goal_cases)
  case 1
  show ?case by simp
next
  case (2 env cfg start_time timeout w x1 w1 b)
  have "now w \<le> now w1"
    using now_is_logged_in [of w env cfg] 2 by (simp add: prod_eq_iff)
  then show ?case
    using 2 by (simp add: sleep_def)
qed

declare manual_login_loop.simps [simp del]

text \<open>\<open>LoginManager.manual_login\<close>; the login page is opened outside any \<open>try\<close>.\<close>

definition manual_login ::
  "'v env \<Rightarrow> config \<Rightarrow> int \<Rightarrow> 'v world \<Rightarrow> (error + bool) \<times> 'v world" where
  "manual_login env cfg timeout w =
     (case driver_get env (cfg_login_url cfg) w of
        (Inl e, w1) \<Rightarrow> (Inl e, w1)
      | (Inr u, w1) \<Rightarrow> manual_login_loop env cfg (now w1) timeout w1)"

text \<open>
  \<open>LoginManager.ensure_logged_in\<close>. Docker mode is
  \<open>os.environ.get("SELENIUM_REMOTE_URL") is not None\<close>; \<open>manual_login\<close> is called with
  its default timeout of 120 seconds.
\<close>

definition ensure_logged_in ::
  "'v env \<Rightarrow> config \<Rightarrow> 'v world \<Rightarrow> (error + bool) \<times> 'v world" where
  "ensure_logged_in env cfg w =
     (if selenium_remote_url env \<noteq> None then
        (case load_cookies env cfg w of
           (Inl e, w1) \<Rightarrow> (Inl e, w1)
         | (Inr False, w1) \<Rightarrow> (Inr False, w1)
         | (Inr True, w1) \<Rightarrow>
             (case is_logged_in env cfg w1 of
                (Inl e, w2) \<Rightarrow> (Inl e, w2)
              | (Inr True, w2) \<Rightarrow> (Inr True, w2)
              | (Inr False, w2) \<Rightarrow> (Inr False, w2)))
      else
        (case is_logged_in env cfg w of
           (Inl e, w1) \<Rightarrow> (Inl e, w1)
         | (Inr True, w1) \<Rightarrow> (Inr True, w1)
         | (Inr False, w1) \<Rightarrow>
             (case load_cookies env cfg w1 of
                (Inl e, w2) \<Rightarrow> (Inl e, w2)
              | (Inr True, w2) \<Rightarrow>
                  (case is_logged_in env cfg w2 of
                     (Inl e, w3) \<Rightarrow> (Inl e, w3)
                   | (Inr True, w3) \<Rightarrow> (Inr True, w3)
                   | (Inr False, w3) \<Rightarrow> manual_login env cfg 120 w3)
              | (Inr False, w2) \<Rightarrow> manual_login env cfg 120 w2)))"

section \<open>Publish workflow (\<open>uploader.py\<close>)\<close>

subsection \<open>Waiting for the upload\<close>

text \<open>
  The test of the button loop of \<open>_wait_for_upload\<close>,
  \<^verbatim>\<open>
  btn_text = button.text.strip().lower()
  if btn_text == "post" and button.is_displayed() and button.is_enabled():
  \<close>
  inside a \<open>try\<close> whose handler is \<open>continue\<close>: a call that raises leaves the button
  uncounted.
\<close>

definition is_post_button :: "element \<Rightarrow> bool" where
  "is_post_button button =
     (case e_text button of
        None \<Rightarrow> False
      | Some t \<Rightarrow>
          if lower (strip t) = ''post'' then
            (case e_displayed button of
               None \<Rightarrow> False
             | Some displayed \<Rightarrow>
                 if displayed then (case e_enabled button of None \<Rightarrow> False | Some enabled \<Rightarrow> enabled)
                 else False)
          else False)"

text \<open>
  \<^verbatim>\<open>
  for button in buttons:
      try:
          if <button is a post button>:
              post_found_count += 1
              if post_found_count >= 3:
                  time.sleep(2)
                  return True
      except:
          continue
  \<close>
  The result is the counter and whether the function returns.
\<close>

fun scan_buttons :: "element list \<Rightarrow> nat \<Rightarrow> nat \<times> bool" where
  "scan_buttons [] post_found_count = (post_found_count, False)"
| "scan_buttons (button # buttons) post_found_count =
     (if is_post_button button then
        (if post_found_count + 1 \<ge> 3 then (post_found_count + 1, True)
         else scan_buttons buttons (post_found_count + 1))
      else scan_buttons buttons post_found_count)"

text \<open>\<open>any(e.is_displayed() for e in edit_cover)\<close>; \<open>None\<close> when a call raises first.\<close>

fun any_displayed :: "element list \<Rightarrow> bool option" where
  "any_displayed [] = Some False"
| "any_displayed (e # es) =
     (case e_displayed e of
        None \<Rightarrow> None
      | Some True \<Rightarrow> Some True
      | Some False \<Rightarrow> any_displayed es)"

text \<open>
  \<^verbatim>\<open>
  for p in progress:
      text = p.text.strip()
      if '%' in text and text != '100%':
          post_found_count = 0
  \<close>
  inside a \<open>try\<close> around the whole loop: a text that cannot be read ends the loop.
\<close>

definition in_progress_text :: "string \<Rightarrow> bool" where
  "in_progress_text text = (CHR ''%'' \<in> set text \<and> text \<noteq> ''100%'')"

fun scan_progress :: "element list \<Rightarrow> nat \<Rightarrow> nat" where
  "scan_progress [] post_found_count = post_found_count"
| "scan_progress (p # ps) post_found_count =
     (case e_text p of
        None \<Rightarrow> post_found_count
      | Some t \<Rightarrow> scan_progress ps (if in_progress_text (strip t) then 0 else post_found_count))"

definition edit_cover_xpath :: string where
  "edit_cover_xpath = ''//*[contains(text(), \"Edit cover\")]''"

definition percent_xpath :: string where
  "percent_xpath = ''//*[contains(text(), \"%\")]''"

text \<open>
  One pass of the body of the \<open>while\<close> of \<open>_wait_for_upload\<close>: whether the function
  returns from it, and the counter after it.
\<close>

definition upload_poll :: "'v env \<Rightarrow> nat \<Rightarrow> 'v world \<Rightarrow> (bool \<times> nat) \<times> 'v world" where
  "upload_poll env post_found_count w =
     (case find_elements env TagName ''button'' w of (r1, w1) \<Rightarrow>
      case (case r1 of
              Inl e \<Rightarrow> (post_found_count, False)
            | Inr buttons \<Rightarrow> scan_buttons buttons post_found_count) of (c1, confirmed) \<Rightarrow>
      if confirmed then ((True, c1), sleep 2000 (record_action (Log UploadCompleted) w1))
      else
        case find_elements env XPath edit_cover_xpath w1 of (r2, w2) \<Rightarrow>
        case find_elements env XPath percent_xpath w2 of (r3, w3) \<Rightarrow>
        let c2 = (case r2 of
                    Inl e \<Rightarrow> c1
                  | Inr edit_cover \<Rightarrow>
                      if edit_cover \<noteq> [] \<and> any_displayed edit_cover = Some True then c1 + 1
                      else c1);
            c3 = (case r3 of Inl e \<Rightarrow> c2 | Inr progress \<Rightarrow> scan_progress progress c2)
        in ((False, c3), sleep 3000 w3))"

lemma now_find_elements: "now w \<le> now (snd (find_elements env b v w))"
  by (simp add: find_elements_def driver_call_def)

lemma now_upload_poll:
  assumes "upload_poll env c w = ((False, c'), w')"
  shows "now w + 3000 \<le> now w'"
proof -
  obtain r1 w1 where f1: "find_elements env TagName ''button'' w = (r1, w1)"
    by (cases "find_elements env TagName ''button'' w")
  obtain r2 w2 where f2: "find_elements env XPath edit_cover_xpath w1 = (r2, w2)"
    by (cases "find_elements env XPath edit_cover_xpath w1")
  obtain r3 w3 where f3: "find_elements env XPath percent_xpath w2 = (r3, w3)"
    by (cases "find_elements env XPath percent_xpath w2")
  have "now w \<le> now w1"
    using now_find_elements [of w env TagName "''button''"] f1 by simp
  moreover have "now w1 \<le> now w2"
    using now_find_elements [of w1 env XPath edit_cover_xpath] f2 by simp
  moreover have "now w2 \<le> now w3"
    using now_find_elements [of w2 env XPath percent_xpath] f3 by simp
  moreover have "w' = sleep 3000 w3"
    using assms f1 f2 f3
    by (auto simp: upload_poll_def Let_def split: prod.splits if_splits)
  ultimately show ?thesis
    by (simp add: sleep_def)
qed

text \<open>
  \<^verbatim>\<open>
  start_time = time.time()
  post_found_count = 0
  while time.time() - start_time < timeout:
      <one pass>
      time.sleep(3)
  logger.warning("Upload wait timed out, but continuing anyway...")
  return True
  \<close>
\<close>

function wait_for_upload_loop ::
  "'v env \<Rightarrow> nat \<Rightarrow> int \<Rightarrow> nat \<Rightarrow> 'v world \<Rightarrow> (error + bool) \<times> 'v world" where
  "wait_for_upload_loop env start_time timeout post_found_count w =
     (if int (now w) - int start_time < timeout * 1000 then
        (case upload_poll env post_found_count w of
           ((True, c), w1) \<Rightarrow> (Inr True, w1)
         | ((False, c), w1) \<Rightarrow> wait_for_upload_loop env start_time timeout c w1)
      else (Inr True, record_action (Log UploadWaitTimedOut) w))"
  by pat_completeness auto
termination
proof (relation "measure (\<lambda>(env, start_time, timeout, post_found_count, w).
    nat (timeout * 1000 - (int (now w) - int start_time)))", goal_cases)
  case 1
  show ?case by simp
next
  case (2 env start_time timeout post_found_count w x1 w1 b c)
  have "upload_poll env post_found_count w = ((False, c), w1)"
    using 2 by (simp add: prod_eq_iff)
  then have "now w + 3000 \<le> now w1"
    by (rule now_upload_poll)
  then show ?case
    using 2 by simp
qed

declare wait_for_upload_loop.simps [simp del]

text \<open>
  \<open>timeout = timeout or self.config.get("upload", {}).get("upload_timeout", 300)\<close>, in
  seconds.
\<close>

definition upload_wait_timeout :: "config \<Rightarrow> int option \<Rightarrow> int" where
  "upload_wait_timeout cfg timeout =
     (case timeout of
        None \<Rightarrow> cfg_upload_timeout cfg
      | Some t \<Rightarrow> if t = 0 then cfg_upload_timeout cfg else t)"

definition wait_for_upload ::
  "'v env \<Rightarrow> config \<Rightarrow> int option \<Rightarrow> 'v world \<Rightarrow> (error + bool) \<times> 'v world" where
  "wait_for_upload env cfg timeout w =
     wait_for_upload_loop env (now w) (upload_wait_timeout cfg timeout) 0 w"

subsection \<open>Waiting for the post\<close>

definition success_indicators :: "string list" where
  "success_indicators =
     [''[data-e2e=\"upload-success\"]'', ''.upload-success'', ''text*=\"uploaded\"'',
      ''text*=\"posted\"'']"

text \<open>
  \<^verbatim>\<open>
  for selector in success_indicators:
      try:
          self.driver.find_element(By.CSS_SELECTOR, selector)
          logger.success("Post completed (found success indicator)")
          return True
      except:
          pass
  \<close>
\<close>

fun probe_success :: "'v env \<Rightarrow> string list \<Rightarrow> 'v world \<Rightarrow> bool \<times> 'v world" where
  "probe_success env [] w = (False, w)"
| "probe_success env (selector # selectors) w =
     (case find_element env CssSelector selector w of
        (Inr element, w1) \<Rightarrow> (True, record_action (Log PostCompletedIndicator) w1)
      | (Inl e, w1) \<Rightarrow> probe_success env selectors w1)"

lemma now_probe_success: "now w \<le> now (snd (probe_success env selectors w))"
proof (induction selectors arbitrary: w)
  case Nil
  show ?case by simp
next
  case (Cons selector selectors)
  obtain r w1 where f: "find_element env CssSelector selector w = (r, w1)"
    by (cases "find_element env CssSelector selector w")
  have "now w \<le> now w1"
    using now_find_element [of w env CssSelector selector] f by simp
  moreover have "now w1 \<le> now (snd (probe_success env selectors w1))"
    by (rule Cons.IH)
  ultimately show ?case
    using f by (cases r) (auto simp: record_action_def)
qed

text \<open>
  \<^verbatim>\<open>
  start_time = time.time()
  while time.time() - start_time < timeout:
      current_url = self.driver.current_url
      if "upload" not in current_url.lower():
          return True
      <probe the success indicators>
      time.sleep(2)
  logger.warning("Could not confirm post completion")
  return True
  \<close>
  Reading \<open>current_url\<close> is outside any \<open>try\<close>.
\<close>

function wait_for_post_complete_loop ::
  "'v env \<Rightarrow> nat \<Rightarrow> int \<Rightarrow> 'v world \<Rightarrow> (error + bool) \<times> 'v world" where
  "wait_for_post_complete_loop env start_time timeout w =
     (if int (now w) - int start_time < timeout * 1000 then
        (case driver_current_url env w of
           (Inl e, w1) \<Rightarrow> (Inl e, w1)
         | (Inr url, w1) \<Rightarrow>
             if \<not> sublist ''upload'' (lower url)
             then (Inr True, record_action (Log PostCompletedUrlChange) w1)
             else
               (case probe_success env success_indicators w1 of
                  (True, w2) \<Rightarrow> (Inr True, w2)
                | (False, w2) \<Rightarrow>
                    wait_for_post_complete_loop env start_time timeout (sleep 2000 w2)))
      else (Inr True, record_action (Log PostNotConfirmed) w))"
  by pat_completeness auto
termination
proof (relation "measure (\<lambda>(env, start_time, timeout, w).
    nat (timeout * 1000 - (int (now w) - int start_time)))", goal_cases)
  case 1
  show ?case by simp
next
  case (2 env start_time timeout w x1 w1 url x2 w2)
  have "now w \<le> now w1"
    using 2 by (auto simp: driver_current_url_def driver_call_def split: option.splits)
  moreover have "now w1 \<le> now w2"
    using now_probe_success [of w1 env success_indicators] 2 by (simp add: prod_eq_iff)
  ultimately show ?case
    using 2 by (simp add: sleep_def)
qed

declare wait_for_post_complete_loop.simps [simp del]

text \<open>\<open>_wait_for_post_complete\<close>; \<open>timeout\<close> is in seconds, 60 by default.\<close>

definition wait_for_post_complete ::
  "'v env \<Rightarrow> int \<Rightarrow> 'v world \<Rightarrow> (error + bool) \<times> 'v world" where
  "wait_for_post_complete env timeout w =
     (let w0 = sleep 5000 w in wait_for_post_complete_loop env (now w0) timeout w0)"

subsection \<open>Filling the caption\<close>

definition caption_selectors :: "string list" where
  "caption_selectors =
     [''div.public-DraftEditor-content'',
      ''.DraftEditor-editorContainer div[contenteditable=\"true\"]'',
      ''div[contenteditable=\"true\"][data-text=\"true\"]'',
      ''[data-e2e=\"caption-input\"]'',
      ''.caption-input [contenteditable=\"true\"]'',
      ''div[contenteditable=\"true\"]'']"

text \<open>
  \<^verbatim>\<open>
  for i, element in enumerate(elements):
      try:
          visible = element.is_displayed()
          size = element.size
          if not visible:
              continue
          element.click()
          time.sleep(0.5)
          actions = ActionChains(self.driver)
          ...
          actions.perform()
          time.sleep(0.3)
          element.send_keys(full_caption)
          return
      except Exception as e:
          continue
  \<close>
  The result tells whether the function returns.
\<close>

fun type_into_first ::
  "'v env \<Rightarrow> string \<Rightarrow> element list \<Rightarrow> 'v world \<Rightarrow> bool \<times> 'v world" where
  "type_into_first env full_caption [] w = (False, w)"
| "type_into_first env full_caption (element # elements) w =
     (case e_displayed element of
        None \<Rightarrow> type_into_first env full_caption elements w
      | Some visible \<Rightarrow>
          if \<not> e_size_ok element then type_into_first env full_caption elements w
          else if \<not> visible then type_into_first env full_caption elements w
          else
            let w1 = driver_call env Click w in
            if \<not> e_click_ok element then type_into_first env full_caption elements w1
            else
              let w2 = sleep 500 w1;
                  w3 = driver_call env PerformActions w2 in
              if \<not> perform_ok (page_at env (now w2))
              then type_into_first env full_caption elements w3
              else
                let w4 = sleep 300 w3;
                    w5 = driver_call env (SendKeys full_caption) w4 in
                if \<not> e_send_keys_ok element then type_into_first env full_caption elements w5
                else (True, w5))"

text \<open>
  \<^verbatim>\<open>
  for selector in caption_selectors:
      try:
          elements = self.driver.find_elements(By.CSS_SELECTOR, selector)
          <type into the first element that takes it, and return>
      except Exception as e:
          continue
  \<close>
\<close>

fun fill_by_selectors ::
  "'v env \<Rightarrow> string \<Rightarrow> string list \<Rightarrow> 'v world \<Rightarrow> bool \<times> 'v world" where
  "fill_by_selectors env full_caption [] w = (False, w)"
| "fill_by_selectors env full_caption (selector # selectors) w =
     (case find_elements env CssSelector selector w of
        (Inl e, w1) \<Rightarrow> fill_by_selectors env full_caption selectors w1
      | (Inr elements, w1) \<Rightarrow>
          (case type_into_first env full_caption elements w1 of
             (True, w2) \<Rightarrow> (True, w2)
           | (False, w2) \<Rightarrow> fill_by_selectors env full_caption selectors w2))"

text \<open>
  \<open>_fill_caption\<close>: the caption text, the removal of the overlays, the editors found by
  the selectors, and the script that sets the caption when none of them took it.
\<close>

definition fill_caption ::
  "'v env \<Rightarrow> config \<Rightarrow> string \<Rightarrow> string list \<Rightarrow> 'v world \<Rightarrow> (error + unit) \<times> 'v world" where
  "fill_caption env cfg title tags w =
     (if compose_caption title tags = [] then (Inr (), record_action (Log NoCaptionToAdd) w)
      else
        let full_caption = caption_text cfg title tags;
            w1 = sleep 3000 w;
            w2 = (case execute_script env RemoveOverlays w1 of
                    (Inl e, w') \<Rightarrow> w'
                  | (Inr r, w') \<Rightarrow> sleep 1000 w')
        in
          case fill_by_selectors env full_caption caption_selectors w2 of
            (True, w3) \<Rightarrow> (Inr (), w3)
          | (False, w3) \<Rightarrow>
              (case execute_script env (SetCaption full_caption) w3 of
                 (Inl e, w4) \<Rightarrow> (Inr (), record_action (Log CaptionInputNotFound) w4)
               | (Inr result, w4) \<Rightarrow>
                   if result = JsString ''success'' then (Inr (), w4)
                   else (Inr (), record_action (Log CaptionInputNotFound) w4)))"

subsection \<open>The upload\<close>









subsection \<open>What a page shows\<close>

text \<open>The buttons of a page that pass the test of the button loop.\<close>

definition post_buttons :: "'v page \<Rightarrow> element list" where
  "post_buttons pg =
     (case find_all pg TagName ''button'' of None \<Rightarrow> [] | Some buttons \<Rightarrow> filter is_post_button buttons)"

text \<open>The ``Edit cover'' marker is on the page and displayed, as the wait tests it.\<close>

definition edit_cover_shown :: "'v page \<Rightarrow> bool" where
  "edit_cover_shown pg =
     (case find_all pg XPath edit_cover_xpath of
        None \<Rightarrow> False
      | Some edit_cover \<Rightarrow> edit_cover \<noteq> [] \<and> any_displayed edit_cover = Some True)"

text \<open>
  The texts that the progress loop reads before it ends: those of the elements up to
  the first whose text cannot be read, stripped.
\<close>

fun observed_texts :: "element list \<Rightarrow> string list" where
  "observed_texts [] = []"
| "observed_texts (p # ps) =
     (case e_text p of None \<Rightarrow> [] | Some t \<Rightarrow> strip t # observed_texts ps)"

text \<open>
  A page that gives \<open>_wait_for_post_complete\<close> no sign of completion: the URL can
  be read and holds \<open>upload\<close>, and no success indicator is found.
\<close>

definition no_completion_sign :: "'v page \<Rightarrow> bool" where
  "no_completion_sign pg =
     ((case current_url pg of None \<Rightarrow> False | Some url \<Rightarrow> sublist ''upload'' (lower url)) \<and>
      list_all (\<lambda>selector.
         case find_all pg CssSelector selector of None \<Rightarrow> True | Some es \<Rightarrow> es = [])
        success_indicators)"

subsection \<open>The polls of the upload wait\<close>

text \<open>
  The upload wait told from what the page shows. A poll that starts at time \<open>t\<close>
  with the counter at \<open>c\<close> looks up the buttons at \<open>t\<close>, the ``Edit cover'' marker
  once that call is back, and the progress texts once that one is back. If it does
  not return, the next poll starts three seconds after the last call is back, with the
  counter at \<open>c\<close> plus the post buttons seen plus one for a displayed marker, or at
  zero if a text with \<open>%\<close> other than \<open>100%\<close> was read.
\<close>

definition poll_step :: "'v env \<Rightarrow> nat \<times> nat \<Rightarrow> nat \<times> nat" where
  "poll_step env s =
     (case s of (t, c) \<Rightarrow>
        let t1 = t + latency env t;
            t2 = t1 + latency env t1;
            t3 = t2 + latency env t2;
            c2 = c + length (post_buttons (page_at env t)) +
                 (if edit_cover_shown (page_at env t1) then 1 else 0);
            c3 = (case find_all (page_at env t2) XPath percent_xpath of
                    None \<Rightarrow> c2
                  | Some progress \<Rightarrow>
                      if list_ex in_progress_text (observed_texts progress) then 0 else c2)
        in (t3 + 3000, c3))"

text \<open>The time and the counter at the start of poll \<open>k\<close>, from those of poll 0.\<close>

primrec poll_state :: "'v env \<Rightarrow> nat \<Rightarrow> nat \<times> nat \<Rightarrow> nat \<times> nat" where
  "poll_state env 0 s = s"
| "poll_state env (Suc k) s = poll_state env k (poll_step env s)"

text \<open>The test of the \<open>while\<close>: \<open>time.time() - start_time < timeout\<close>.\<close>

definition in_window :: "nat \<Rightarrow> int \<Rightarrow> nat \<Rightarrow> bool" where
  "in_window start_time timeout t = (int t - int start_time < timeout * 1000)"

text \<open>
  A poll returns when the page has a post button and the counter, with the post
  buttons of the page, reaches three.
\<close>

definition poll_returns :: "'v env \<Rightarrow> nat \<times> nat \<Rightarrow> bool" where
  "poll_returns env s =
     (case s of (t, c) \<Rightarrow>
        post_buttons (page_at env t) \<noteq> [] \<and> c + length (post_buttons (page_at env t)) \<ge> 3)"

text \<open>The polls before poll \<open>k\<close> all start within the timeout and none of them returns.\<close>

definition polls_on :: "'v env \<Rightarrow> nat \<Rightarrow> int \<Rightarrow> nat \<times> nat \<Rightarrow> nat \<Rightarrow> bool" where
  "polls_on env start_time timeout s k =
     list_all (\<lambda>j. in_window start_time timeout (fst (poll_state env j s)) \<and>
                   \<not> poll_returns env (poll_state env j s)) [0..<k]"

text \<open>The calls of a poll that does not return.\<close>

definition poll_calls :: "'v action list" where
  "poll_calls =
     [FindElements TagName ''button'', FindElements XPath edit_cover_xpath,
      FindElements XPath percent_xpath, Sleep 3000]"

section \<open>Concrete inputs\<close>

text \<open>Environments and states on which the properties below are run.\<close>

definition new_manager :: manager where
  "new_manager = \<lparr>driver = None, is_remote = None, effects = []\<rparr>"

definition failing_quit_env :: browser_env where
  "failing_quit_env =
     \<lparr>env_selenium_remote_url = None, profile_mkdir_ok = True, remote_connects = (\<lambda>i. False),
      local_starts = True, implicitly_wait_ok = True, set_page_load_timeout_ok = True,
      quit_ok = False\<rparr>"

text \<open>A remote endpoint that takes its third connection.\<close>

definition slow_selenium :: browser_env where
  "slow_selenium =
     \<lparr>env_selenium_remote_url = Some ''http://selenium:4444/wd/hub'', profile_mkdir_ok = True,
      remote_connects = (\<lambda>i. 2 \<le> i), local_starts = False, implicitly_wait_ok = True,
      set_page_load_timeout_ok = True, quit_ok = True\<rparr>"

text \<open>A browser that answers every call, finds nothing and stays on the upload page.\<close>

definition blank_page :: "string page" where
  "blank_page =
     \<lparr>get_ok = (\<lambda>u. True), find_all = (\<lambda>b v. Some []), add_cookie_ok = (\<lambda>c. True),
      refresh_ok = True, get_cookies_result = Some [],
      current_url = Some ''https://www.tiktok.com/creator-center/upload'',
      execute_script_result = (\<lambda>js. Some JsNull), perform_ok = True\<rparr>"

definition blank_env :: "string env" where
  "blank_env =
     \<lparr>page_at = (\<lambda>t. blank_page), latency = (\<lambda>t. 0), selenium_remote_url = None,
      resolve_result = (\<lambda>p. Inr (''/work/'' @ p)), path_entry = (\<lambda>p. Inr (Some RegularFile)),
      mkdir_ok = (\<lambda>t. True), write_outcome = (\<lambda>t. Written),
      random_ms = (\<lambda>t. 0), find_file_input_result = (\<lambda>t. Some None),
      click_post_button_result = (\<lambda>t. False), stage_ms = (\<lambda>t. 0)\<rparr>"

definition new_world :: "string world" where
  "new_world = \<lparr>now = 0, trace = [], cookie_file = Missing\<rparr>"

text \<open>A browser whose every navigation raises.\<close>

definition offline_env :: "string env" where
  "offline_env = blank_env\<lparr>page_at := (\<lambda>t. blank_page\<lparr>get_ok := (\<lambda>u. False)\<rparr>)\<rparr>"

definition plain_element :: element where
  "plain_element =
     \<lparr>e_text = Some [], e_displayed = Some True, e_enabled = Some True, e_size_ok = True,
      e_click_ok = True, e_send_keys_ok = True\<rparr>"

text \<open>The container run: the remote endpoint is configured.\<close>

definition docker_env :: "string env" where
  "docker_env = blank_env\<lparr>selenium_remote_url := Some ''http://selenium:4444/wd/hub''\<rparr>"

text \<open>A local run whose profile is logged in: the profile icon is on the page.\<close>

definition profile_env :: "string env" where
  "profile_env =
     blank_env\<lparr>page_at := (\<lambda>t. blank_page\<lparr>find_all :=
       (\<lambda>b v. if v = ''[data-e2e=\"profile-icon\"]'' then Some [plain_element] else Some [])\<rparr>)\<rparr>"

definition exported_cookies :: "string cookie list" where
  "exported_cookies =
     [[(''name'', ''sessionid''), (''value'', ''abc''), (''sameSite'', ''Lax'')],
      [(''name'', ''tt_csrf''), (''storeId'', ''0''), (''value'', ''x'')],
      [(''name'', ''lang''), (''value'', ''en'')]]"

text \<open>A driver that rejects the cookie named \<open>tt_csrf\<close>.\<close>

definition picky_env :: "string env" where
  "picky_env =
     blank_env\<lparr>page_at := (\<lambda>t. blank_page\<lparr>add_cookie_ok :=
       (\<lambda>c. map_of c ''name'' \<noteq> Some ''tt_csrf'')\<rparr>)\<rparr>"




text \<open>A button that reads ``Post'', displayed and enabled.\<close>

definition post_button :: element where
  "post_button = plain_element\<lparr>e_text := Some '' Post ''\<rparr>"

text \<open>A page that shows the ``Edit cover'' marker at all times and no button.\<close>

definition edit_cover_env :: "string env" where
  "edit_cover_env =
     blank_env\<lparr>page_at := (\<lambda>t. blank_page\<lparr>find_all :=
       (\<lambda>b v. if b = XPath \<and> v = edit_cover_xpath then Some [plain_element] else Some [])\<rparr>)\<rparr>"

text \<open>
  A page whose post button flickers: it is there except from the third to the sixth
  second, and the ``Edit cover'' marker never shows.
\<close>

definition flicker_env :: "string env" where
  "flicker_env =
     blank_env\<lparr>page_at := (\<lambda>t. blank_page\<lparr>find_all :=
       (\<lambda>b v. if b = TagName \<and> v = ''button'' \<and> \<not> (3000 \<le> t \<and> t < 6000)
              then Some [post_button] else Some [])\<rparr>)\<rparr>"

text \<open>A page with the caption editor of the first selector.\<close>

definition editor_env :: "string env" where
  "editor_env =
     blank_env\<lparr>page_at := (\<lambda>t. blank_page\<lparr>find_all :=
       (\<lambda>b v. if b = CssSelector \<and> v = ''div.public-DraftEditor-content''
              then Some [plain_element] else Some [])\<rparr>)\<rparr>"

section \<open>Properties of the caption text\<close>

lemma join_hashtags: "join '' '' (map (\<lambda>tag. CHR ''#'' # tag) tags) = spaced_hashtags tags"
  by (induction tags rule: spaced_hashtags.induct) simp_all

text \<open>
  C5. The caption composed from a non-empty title and a non-empty list of tags is the
  title, one space, and the tags as hashtags separated by single spaces.
\<close>

theorem caption_composition:
  assumes "title \<noteq> []" and "tags \<noteq> []"
  shows "compose_caption title tags = title @ '' '' @ spaced_hashtags tags"
  using assms by (simp add: compose_caption_def caption_parts_def hashtags_def join_hashtags)

theorem caption_composition_witness:
  "''My trip'' \<noteq> [] \<and> [''travel'', ''summer''] \<noteq> [] \<and>
   compose_caption ''My trip'' [''travel'', ''summer''] = ''My trip #travel #summer''"
  using caption_composition [of "''My trip''" "[''travel'', ''summer'']"] by simp

text \<open>
  Truncation with a maximum length of at least three: a caption over the maximum comes
  out with exactly the maximum length and ends in the ellipsis; a caption at or under
  any maximum is unchanged.
\<close>

lemma truncate_caption_long:
  assumes "3 \<le> max_length" and "int (length c) > max_length"
  shows "int (length (truncate_caption max_length c)) = max_length \<and>
         suffix ''...'' (truncate_caption max_length c)"
  using assms by (auto simp: truncate_caption_def py_slice_to_def suffix_def)

lemma truncate_caption_short:
  "int (length c) \<le> max_length \<Longrightarrow> truncate_caption max_length c = c"
  by (simp add: truncate_caption_def)

text \<open>
  From a maximum length of three on, the caption text is as the truncation is meant: a
  composed caption over the maximum is typed with exactly the maximum length and
  ends in the ellipsis, and one at or under the maximum is typed as composed.
\<close>

theorem caption_truncation_from_three:
  assumes "3 \<le> cfg_max_title_length cfg"
  shows "(int (length (compose_caption title tags)) > cfg_max_title_length cfg \<longrightarrow>
           int (length (caption_text cfg title tags)) = cfg_max_title_length cfg \<and>
           suffix ''...'' (caption_text cfg title tags)) \<and>
         (int (length (compose_caption title tags)) \<le> cfg_max_title_length cfg \<longrightarrow>
           caption_text cfg title tags = compose_caption title tags)"
  using assms truncate_caption_long [of "cfg_max_title_length cfg" "compose_caption title tags"]
    truncate_caption_short [of "compose_caption title tags" "cfg_max_title_length cfg"]
  by (auto simp: caption_text_def)

theorem caption_truncation_from_three_witness:
  "3 \<le> cfg_max_title_length (default_config\<lparr>max_title_length := Some 20\<rparr>) \<and>
   int (length (compose_caption ''My trip'' [''travel'', ''summer''])) >
     cfg_max_title_length (default_config\<lparr>max_title_length := Some 20\<rparr>) \<and>
   caption_text (default_config\<lparr>max_title_length := Some 20\<rparr>) ''My trip'' [''travel'', ''summer'']
     = ''My trip #travel #...'' \<and>
   int (length (compose_caption ''My trip'' [''travel'', ''summer''])) \<le>
     cfg_max_title_length default_config \<and>
   caption_text default_config ''My trip'' [''travel'', ''summer''] = ''My trip #travel #summer''"
  using caption_truncation_from_three [of "default_config\<lparr>max_title_length := Some 20\<rparr>"
      "''My trip''" "[''travel'', ''summer'']"]
    caption_truncation_from_three [of default_config "''My trip''" "[''travel'', ''summer'']"]
  by (simp add: caption_text_def cfg_max_title_length_def default_config_def
      compose_caption_def caption_parts_def hashtags_def truncate_caption_def py_slice_to_def)

text \<open>
  C4. With a maximum length below three the slice \<open>full_caption[:max_length-3]\<close>
  counts from the end: under \<open>max_title_length = 2\<close> the title \<open>abcd\<close>, composed
  as \<open>abcd\<close>, is typed into the caption editor as \<open>abc...\<close>, six characters,
  longer than the maximum and than the title.
\<close>

theorem caption_truncation_overflow:
  "cfg_max_title_length (default_config\<lparr>max_title_length := Some 2\<rparr>) = 2 \<and>
   compose_caption ''abcd'' [] = ''abcd'' \<and>
   caption_text (default_config\<lparr>max_title_length := Some 2\<rparr>) ''abcd'' [] = ''abc...'' \<and>
   fill_caption editor_env (default_config\<lparr>max_title_length := Some 2\<rparr>) ''abcd'' [] new_world =
     (Inr (),
      \<lparr>now = 4800,
       trace = [Sleep 3000, ExecuteScript RemoveOverlays, Sleep 1000,
                FindElements CssSelector ''div.public-DraftEditor-content'', Click, Sleep 500,
                PerformActions, Sleep 300, SendKeys ''abc...''],
       cookie_file = Missing\<rparr>)"
  by (simp add: caption_text_def cfg_max_title_length_def default_config_def
      compose_caption_def caption_parts_def truncate_caption_def py_slice_to_def
      fill_caption_def caption_selectors_def execute_script_def find_elements_def
      driver_call_def sleep_def record_action_def Let_def editor_env_def blank_env_def
      blank_page_def new_world_def plain_element_def)

section \<open>Properties of the driver provisioning\<close>

lemma close_result: "fst (close env m) = Inr ()"
  by (simp add: close_def driver_quit_def split: option.splits)

lemma close_driver: "driver (snd (close env m)) = None"
  by (simp add: close_def driver_quit_def split: option.splits)

lemma close_no_driver: "driver m = None \<Longrightarrow> close env m = (Inr (), m)"
  by (simp add: close_def)

text \<open>
  C9. \<open>close\<close> never raises and leaves no driver handle, also when \<open>quit\<close> raises;
  without a handle it does nothing and leaves the manager as it was; so closing a
  closed manager changes nothing.
\<close>

theorem close_idempotent_no_raise:
  "fst (close env m) = Inr () \<and> driver (snd (close env m)) = None \<and>
   (driver m = None \<longrightarrow> close env m = (Inr (), m)) \<and>
   close env (snd (close env m)) = (Inr (), snd (close env m))"
  using close_result [of env m] close_driver [of env m] close_no_driver [of m env]
    close_no_driver [of "snd (close env m)" env]
  by simp

theorem close_idempotent_no_raise_witness:
  "driver new_manager = None \<and> close failing_quit_env new_manager = (Inr (), new_manager) \<and>
   \<not> quit_ok failing_quit_env \<and>
   close failing_quit_env (new_manager\<lparr>driver := Some LocalDriver\<rparr>) =
     (Inr (), new_manager\<lparr>effects := [Quit LocalDriver]\<rparr>) \<and>
   close failing_quit_env (new_manager\<lparr>effects := [Quit LocalDriver]\<rparr>) =
     (Inr (), new_manager\<lparr>effects := [Quit LocalDriver]\<rparr>)"
  using close_idempotent_no_raise [of failing_quit_env new_manager]
    close_idempotent_no_raise [of failing_quit_env "new_manager\<lparr>driver := Some LocalDriver\<rparr>"]
  by (simp add: close_def driver_quit_def effect_def failing_quit_env_def new_manager_def)

lemma connect_loop_fails:
  assumes "\<forall>j. attempt \<le> j \<and> j < n \<longrightarrow> \<not> remote_connects env j" and "attempt < n"
  shows "connect_loop env n attempt m =
    (Inl (CouldNotConnect n),
     m\<lparr>effects := effects m @ concat (map (\<lambda>j. [ConnectRemote j, SleepSeconds 2]) [attempt..<n - 1])
        @ [ConnectRemote (n - 1)]\<rparr>)"
  using assms
proof (induction env n attempt m rule: connect_loop.induct)
  case (1 env max_retries attempt m)
  show ?case
  proof (cases "int attempt < int max_retries - 1")
    case True
    then have lt: "Suc attempt < max_retries" by simp
    have up: "[attempt..<max_retries - 1] = attempt # [Suc attempt..<max_retries - 1]"
      using lt by (simp add: upt_conv_Cons)
    have nc: "\<not> remote_connects env attempt"
      using 1 by simp
    have "connect_loop env max_retries (attempt + 1) (effect (SleepSeconds 2) (effect (ConnectRemote attempt) m))
      = (Inl (CouldNotConnect max_retries),
         (effect (SleepSeconds 2) (effect (ConnectRemote attempt) m))\<lparr>effects := effects (effect (SleepSeconds 2) (effect (ConnectRemote attempt) m)) @
           concat (map (\<lambda>j. [ConnectRemote j, SleepSeconds 2]) [attempt + 1..<max_retries - 1])
           @ [ConnectRemote (max_retries - 1)]\<rparr>)"
      using 1 nc True lt by (intro "1.IH") auto
    then show ?thesis
      using nc True lt up
      by (subst connect_loop.simps) (simp add: effect_def Let_def)
  next
    case False
    then have "attempt = max_retries - 1"
      using 1 by simp
    then show ?thesis
      using 1 False
      by (subst connect_loop.simps) (simp add: effect_def Let_def)
  qed
qed

lemma connect_loop_succeeds:
  assumes "\<forall>j. attempt \<le> j \<and> j < i \<longrightarrow> \<not> remote_connects env j" and "attempt \<le> i" and "i < n"
    and "remote_connects env i"
  shows "connect_loop env n attempt m =
    (Inr (),
     m\<lparr>effects := effects m @ concat (map (\<lambda>j. [ConnectRemote j, SleepSeconds 2]) [attempt..<i])
        @ [ConnectRemote i], driver := Some RemoteDriver\<rparr>)"
  using assms
proof (induction env n attempt m rule: connect_loop.induct)
  case (1 env max_retries attempt m)
  show ?case
  proof (cases "attempt = i")
    case True
    have "remote_connects env attempt" "attempt < max_retries"
      using True "1.prems" by simp_all
    then show ?thesis
      using True by (subst connect_loop.simps) (simp add: effect_def Let_def)
  next
    case False
    then have lt: "attempt < i" using "1.prems" by simp
    then have lt2: "int attempt < int max_retries - 1" using "1.prems" by simp
    have nc: "\<not> remote_connects env attempt"
      using "1.prems" lt by simp
    have up: "[attempt..<i] = attempt # [Suc attempt..<i]"
      using lt by (simp add: upt_conv_Cons)
    have "connect_loop env max_retries (attempt + 1) (effect (SleepSeconds 2) (effect (ConnectRemote attempt) m))
      = (Inr (),
         (effect (SleepSeconds 2) (effect (ConnectRemote attempt) m))\<lparr>effects := effects (effect (SleepSeconds 2) (effect (ConnectRemote attempt) m)) @
           concat (map (\<lambda>j. [ConnectRemote j, SleepSeconds 2]) [attempt + 1..<i])
           @ [ConnectRemote i], driver := Some RemoteDriver\<rparr>)"
      using "1.prems" nc lt lt2 by (intro "1.IH") auto
    then show ?thesis
      using nc lt lt2 up
      by (subst connect_loop.simps) (simp add: effect_def Let_def)
  qed
qed


lemma connect_attempts_through: "connect_attempts (attempts_through i) = Suc i"
proof -
  have "connect_attempts (concat (map (\<lambda>j. [ConnectRemote j, SleepSeconds 2]) [0..<k])) = k" for k
    by (induction k) (simp_all add: connect_attempts_def)
  then show ?thesis
    by (simp add: attempts_through_def connect_attempts_def)
qed

lemma connect_attempts_append: "connect_attempts (xs @ ys) = connect_attempts xs + connect_attempts ys"
  by (simp add: connect_attempts_def)

lemma create_driver_all_fail:
  assumes "env_selenium_remote_url env = Some url" and "url \<noteq> []" and "profile_mkdir_ok env"
    and "\<forall>j<30. \<not> remote_connects env j"
  shows "create_driver env m =
    (Inl (CouldNotConnect 30), m\<lparr>effects := effects m @ MakeProfileDir # attempts_through 29\<rparr>)"
proof -
  obtain c cs where url: "url = c # cs"
    using assms(2) by (cases url) auto
  have "connect_loop env 30 0 (effect MakeProfileDir m) =
    (Inl (CouldNotConnect 30),
     (effect MakeProfileDir m)\<lparr>effects := effects (effect MakeProfileDir m) @
        concat (map (\<lambda>j. [ConnectRemote j, SleepSeconds 2]) [0..<30 - 1]) @ [ConnectRemote (30 - 1)]\<rparr>)"
    using assms(4) by (intro connect_loop_fails) auto
  then show ?thesis
    using assms(1,3) url
    by (simp add: create_driver_def Let_def attempts_through_def effect_def)
qed

lemma create_driver_first_success:
  assumes "env_selenium_remote_url env = Some url" and "url \<noteq> []" and "profile_mkdir_ok env"
    and "i < 30" and "remote_connects env i" and "\<forall>j<i. \<not> remote_connects env j"
  shows "fst (create_driver env m) =
      (if implicitly_wait_ok env \<and> set_page_load_timeout_ok env then Inr (Some RemoteDriver)
       else Inl WebDriverError)"
    and "effects (snd (create_driver env m)) =
      effects m @ MakeProfileDir # attempts_through i @ SetFileDetector # ImplicitlyWait #
        (if implicitly_wait_ok env then [SetPageLoadTimeout] else [])"
proof -
  obtain c cs where url: "url = c # cs"
    using assms(2) by (cases url) auto
  have loop: "connect_loop env 30 0 (effect MakeProfileDir m) =
    (Inr (),
     (effect MakeProfileDir m)\<lparr>effects := effects (effect MakeProfileDir m) @
        concat (map (\<lambda>j. [ConnectRemote j, SleepSeconds 2]) [0..<i]) @ [ConnectRemote i],
        driver := Some RemoteDriver\<rparr>)"
    using assms(4,5,6) by (intro connect_loop_succeeds) auto
  show "fst (create_driver env m) =
      (if implicitly_wait_ok env \<and> set_page_load_timeout_ok env then Inr (Some RemoteDriver)
       else Inl WebDriverError)"
    using assms(1,3) url loop
    by (simp add: create_driver_def Let_def set_timeouts_def effect_def)
  show "effects (snd (create_driver env m)) =
      effects m @ MakeProfileDir # attempts_through i @ SetFileDetector # ImplicitlyWait #
        (if implicitly_wait_ok env then [SetPageLoadTimeout] else [])"
    using assms(1,3) url loop
    by (simp add: create_driver_def Let_def set_timeouts_def effect_def attempts_through_def)
qed

lemma first_success_exists:
  fixes P :: "nat \<Rightarrow> bool"
  assumes "\<not> (\<forall>j<n. \<not> P j)"
  shows "\<exists>i<n. P i \<and> (\<forall>j<i. \<not> P j)"
proof -
  from assms obtain k where k: "k < n" "P k" by auto
  then obtain i where i: "P i" "\<forall>j<i. \<not> P j"
    using exists_least_iff [of P] by auto
  have "\<not> k < i"
    using i(2) k(2) by auto
  then have "i < n"
    using k(1) by simp
  then show ?thesis
    using i by auto
qed

text \<open>
  C8. With a remote endpoint configured, \<open>create_driver\<close> raises the exception that
  names the attempt count exactly when all 30 connection attempts fail, and it names 30;
  it makes at most 30 attempts; when all fail, the attempts 0 to 29 are separated by
  sleeps of two seconds and nothing follows the last; when attempt \<open>i\<close> is the first
  to connect, the attempts 0 to \<open>i\<close> are separated by sleeps of two seconds and no
  further attempt is made.
\<close>

theorem create_driver_remote_retry:
  assumes "env_selenium_remote_url env = Some url" and "url \<noteq> []" and "profile_mkdir_ok env"
  shows "(fst (create_driver env m) = Inl (CouldNotConnect n)
            \<longleftrightarrow> n = 30 \<and> (\<forall>j<30. \<not> remote_connects env j)) \<and>
         connect_attempts (effects (snd (create_driver env m))) \<le> connect_attempts (effects m) + 30 \<and>
         ((\<forall>j<30. \<not> remote_connects env j) \<longrightarrow>
            effects (snd (create_driver env m)) = effects m @ MakeProfileDir # attempts_through 29) \<and>
         (i < 30 \<and> remote_connects env i \<and> (\<forall>j<i. \<not> remote_connects env j) \<longrightarrow>
            effects (snd (create_driver env m)) =
              effects m @ MakeProfileDir # attempts_through i @ SetFileDetector # ImplicitlyWait #
                (if implicitly_wait_ok env then [SetPageLoadTimeout] else []))"
proof (cases "\<forall>j<30. \<not> remote_connects env j")
  case True
  have cd: "create_driver env m =
    (Inl (CouldNotConnect 30), m\<lparr>effects := effects m @ MakeProfileDir # attempts_through 29\<rparr>)"
    using assms True by (rule create_driver_all_fail)
  have "\<not> (i < 30 \<and> remote_connects env i)"
    using True by auto
  moreover have "connect_attempts (effects (snd (create_driver env m))) = connect_attempts (effects m) + 30"
    unfolding cd using connect_attempts_through [of 29]
    by (simp add: connect_attempts_append) (simp add: connect_attempts_def)
  ultimately show ?thesis
    using True cd by auto
next
  case False
  then obtain k where k: "k < 30" "remote_connects env k" "\<forall>j<k. \<not> remote_connects env j"
    using first_success_exists [of 30 "remote_connects env"] by auto
  have r: "fst (create_driver env m) =
      (if implicitly_wait_ok env \<and> set_page_load_timeout_ok env then Inr (Some RemoteDriver)
       else Inl WebDriverError)"
    using assms k by (rule create_driver_first_success(1))
  have e: "effects (snd (create_driver env m)) =
      effects m @ MakeProfileDir # attempts_through k @ SetFileDetector # ImplicitlyWait #
        (if implicitly_wait_ok env then [SetPageLoadTimeout] else [])"
    using assms k by (rule create_driver_first_success(2))
  have same: "i = k" if "i < 30" "remote_connects env i" "\<forall>j<i. \<not> remote_connects env j"
    using that k by (meson linorder_neqE_nat)
  have count: "connect_attempts (effects (snd (create_driver env m))) = connect_attempts (effects m) + Suc k"
    unfolding e using connect_attempts_through [of k]
    by (simp add: connect_attempts_append) (simp add: connect_attempts_def)
  show ?thesis
    using False r e same count k(1) by auto
qed

theorem create_driver_remote_retry_witness:
  "env_selenium_remote_url slow_selenium = Some ''http://selenium:4444/wd/hub'' \<and>
   ''http://selenium:4444/wd/hub'' \<noteq> [] \<and> profile_mkdir_ok slow_selenium \<and>
   (2::nat) < 30 \<and> remote_connects slow_selenium 2 \<and>
   \<not> remote_connects slow_selenium 0 \<and> \<not> remote_connects slow_selenium 1 \<and>
   fst (create_driver slow_selenium new_manager) \<noteq> Inl (CouldNotConnect 30) \<and>
   effects (snd (create_driver slow_selenium new_manager)) =
     [MakeProfileDir, ConnectRemote 0, SleepSeconds 2, ConnectRemote 1, SleepSeconds 2,
      ConnectRemote 2, SetFileDetector, ImplicitlyWait, SetPageLoadTimeout]"
proof -
  have a: "env_selenium_remote_url slow_selenium = Some ''http://selenium:4444/wd/hub''"
    and b: "''http://selenium:4444/wd/hub'' \<noteq> []" and c: "profile_mkdir_ok slow_selenium"
    by (simp_all add: slow_selenium_def)
  have d: "\<forall>j<2. \<not> remote_connects slow_selenium j"
    by (simp add: slow_selenium_def)
  have up: "[0..<2] = [0, Suc 0]"
    by (simp add: upt_conv_Cons)
  show ?thesis
    using create_driver_remote_retry [OF a b c, of new_manager 30 2] d
    by (auto simp: slow_selenium_def new_manager_def attempts_through_def up)
qed

section \<open>Properties of the session manager\<close>

lemma is_logged_in_returns: "\<exists>b. fst (is_logged_in env cfg w) = Inr b"
proof -
  obtain r w1 where b: "is_logged_in_body env cfg w = (r, w1)"
    by (cases "is_logged_in_body env cfg w")
  show ?thesis
    using b by (cases r) (auto simp: is_logged_in_def)
qed

text \<open>
  C10. \<open>is_logged_in\<close> returns a boolean in every environment and never raises; when
  the navigation to the base URL raises inside its \<open>try\<close>, it returns \<open>False\<close>
  after that one call.
\<close>

theorem is_logged_in_total:
  "(\<exists>b. fst (is_logged_in env cfg w) = Inr b) \<and>
   (\<not> get_ok (page_at env (now w)) (cfg_base_url cfg) \<longrightarrow>
      fst (is_logged_in_body env cfg w) = Inl WebDriverError \<and>
      is_logged_in env cfg w = (Inr False, driver_call env (Get (cfg_base_url cfg)) w))"
  using is_logged_in_returns [of env cfg w]
  by (simp add: is_logged_in_def is_logged_in_body_def driver_get_def)

theorem is_logged_in_total_witness:
  "\<not> get_ok (page_at offline_env (now new_world)) (cfg_base_url default_config) \<and>
   is_logged_in offline_env default_config new_world =
     (Inr False, new_world\<lparr>trace := [Get ''https://www.tiktok.com'']\<rparr>)"
  using is_logged_in_total [of offline_env default_config new_world]
  by (simp add: offline_env_def blank_env_def blank_page_def new_world_def driver_call_def
      cfg_base_url_def default_config_def)

lemma trace_probe_indicators:
  "\<exists>k. trace (snd (probe_indicators env selectors w)) =
         trace w @ map (FindElement CssSelector) (take k selectors)"
proof (induction selectors arbitrary: w)
  case Nil
  show ?case by simp
next
  case (Cons selector selectors)
  obtain r w1 where f: "find_element env CssSelector selector w = (r, w1)"
    by (cases "find_element env CssSelector selector w")
  have t1: "trace w1 = trace w @ [FindElement CssSelector selector]"
    using f by (auto simp: find_element_def driver_call_def)
  show ?case
  proof (cases r)
    case (Inl e)
    obtain k where "trace (snd (probe_indicators env selectors w1)) =
         trace w1 @ map (FindElement CssSelector) (take k selectors)"
      using Cons.IH [of w1] by auto
    then have "trace (snd (probe_indicators env (selector # selectors) w)) =
         trace w @ map (FindElement CssSelector) (take (Suc k) (selector # selectors))"
      using f Inl t1 by simp
    then show ?thesis by blast
  next
    case (Inr el)
    have "trace (snd (probe_indicators env (selector # selectors) w)) =
         trace w @ map (FindElement CssSelector) (take (Suc 0) (selector # selectors))"
      using f Inr t1 by simp
    then show ?thesis by blast
  qed
qed

lemma cookie_file_probe_indicators:
  "cookie_file (snd (probe_indicators env selectors w)) = cookie_file w"
proof (induction selectors arbitrary: w)
  case Nil
  show ?case by simp
next
  case (Cons selector selectors)
  obtain r w1 where f: "find_element env CssSelector selector w = (r, w1)"
    by (cases "find_element env CssSelector selector w")
  have "cookie_file w1 = cookie_file w"
    using f by (auto simp: find_element_def driver_call_def)
  then show ?case
    using f Cons.IH [of w1] by (cases r) auto
qed

lemma is_logged_in_true_trace:
  assumes "fst (is_logged_in env cfg w) = Inr True"
  shows "\<exists>k. trace (snd (is_logged_in env cfg w)) =
           trace w @ Get (cfg_base_url cfg) # Sleep 3000 #
             map (FindElement CssSelector) (take k login_indicators)"
proof -
  let ?w1 = "sleep 3000 (driver_call env (Get (cfg_base_url cfg)) w)"
  have g: "get_ok (page_at env (now w)) (cfg_base_url cfg)"
    using assms by (auto simp: is_logged_in_def is_logged_in_body_def driver_get_def split: if_splits)
  then have eq: "snd (is_logged_in env cfg w) = snd (probe_indicators env login_indicators ?w1)"
    by (auto simp: is_logged_in_def is_logged_in_body_def driver_get_def split: prod.splits sum.splits)
  obtain k where "trace (snd (probe_indicators env login_indicators ?w1)) =
      trace ?w1 @ map (FindElement CssSelector) (take k login_indicators)"
    using trace_probe_indicators [of env login_indicators ?w1] by auto
  then have "trace (snd (is_logged_in env cfg w)) =
           trace w @ Get (cfg_base_url cfg) # Sleep 3000 #
             map (FindElement CssSelector) (take k login_indicators)"
    using eq by (simp add: sleep_def driver_call_def)
  then show ?thesis by blast
qed

lemma cookie_file_is_logged_in: "cookie_file (snd (is_logged_in env cfg w)) = cookie_file w"
  using cookie_file_probe_indicators [of env login_indicators "sleep 3000 (driver_call env (Get (cfg_base_url cfg)) w)"]
  by (auto simp: is_logged_in_def is_logged_in_body_def driver_get_def sleep_def driver_call_def
      split: prod.splits sum.splits)

text \<open>
  C1. With \<open>SELENIUM_REMOTE_URL\<close> set and no cookie file, \<open>ensure_logged_in\<close> returns
  \<open>False\<close> after the check for the file and nothing else: no call on the driver, no
  manual login. With the variable unset and a first login probe that reports a login, it
  returns \<open>True\<close> in the state the probe left: the calls made are the navigation to
  the base URL, the settle sleep and the lookups of the probe, the cookie file is
  neither checked nor read, and the login page is not opened.
\<close>

theorem ensure_logged_in_branches:
  "(selenium_remote_url env \<noteq> None \<and> cookie_file w = Missing \<longrightarrow>
      ensure_logged_in env cfg w = (Inr False, record_action CookiePathExists w)) \<and>
   (selenium_remote_url env = None \<and> fst (is_logged_in env cfg w) = Inr True \<longrightarrow>
      ensure_logged_in env cfg w = is_logged_in env cfg w \<and>
      cookie_file (snd (ensure_logged_in env cfg w)) = cookie_file w \<and>
      (\<exists>k. trace (snd (ensure_logged_in env cfg w)) =
           trace w @ Get (cfg_base_url cfg) # Sleep 3000 #
             map (FindElement CssSelector) (take k login_indicators)))"
proof (intro conjI impI)
  assume "selenium_remote_url env \<noteq> None \<and> cookie_file w = Missing"
  then show "ensure_logged_in env cfg w = (Inr False, record_action CookiePathExists w)"
    by (simp add: ensure_logged_in_def load_cookies_def Let_def record_action_def)
next
  assume a: "selenium_remote_url env = None \<and> fst (is_logged_in env cfg w) = Inr True"
  then show e: "ensure_logged_in env cfg w = is_logged_in env cfg w"
    by (cases "is_logged_in env cfg w") (simp add: ensure_logged_in_def)
  show "cookie_file (snd (ensure_logged_in env cfg w)) = cookie_file w"
    unfolding e by (rule cookie_file_is_logged_in)
  show "\<exists>k. trace (snd (ensure_logged_in env cfg w)) =
           trace w @ Get (cfg_base_url cfg) # Sleep 3000 #
             map (FindElement CssSelector) (take k login_indicators)"
    unfolding e using a by (intro is_logged_in_true_trace) simp
qed

theorem ensure_logged_in_branches_witness:
  "selenium_remote_url docker_env \<noteq> None \<and> cookie_file new_world = Missing \<and>
   ensure_logged_in docker_env default_config new_world =
     (Inr False, new_world\<lparr>trace := [CookiePathExists]\<rparr>) \<and>
   selenium_remote_url profile_env = None \<and>
   fst (is_logged_in profile_env default_config new_world) = Inr True \<and>
   ensure_logged_in profile_env default_config new_world =
     (Inr True,
      \<lparr>now = 3000,
       trace = [Get ''https://www.tiktok.com'', Sleep 3000,
                FindElement CssSelector ''[data-e2e=\"profile-icon\"]''],
       cookie_file = Missing\<rparr>)"
proof -
  have a: "selenium_remote_url docker_env \<noteq> None \<and> cookie_file new_world = Missing"
    by (simp add: docker_env_def blank_env_def new_world_def)
  have p: "is_logged_in profile_env default_config new_world =
     (Inr True,
      \<lparr>now = 3000,
       trace = [Get ''https://www.tiktok.com'', Sleep 3000,
                FindElement CssSelector ''[data-e2e=\"profile-icon\"]''],
       cookie_file = Missing\<rparr>)"
    by (simp add: is_logged_in_def is_logged_in_body_def driver_get_def driver_call_def
        sleep_def find_element_def login_indicators_def profile_env_def blank_env_def
        blank_page_def new_world_def cfg_base_url_def default_config_def)
  have b: "selenium_remote_url profile_env = None \<and>
      fst (is_logged_in profile_env default_config new_world) = Inr True"
    using p by (simp add: profile_env_def blank_env_def)
  show ?thesis
    using ensure_logged_in_branches [where env = docker_env and cfg = default_config and w = new_world]
      ensure_logged_in_branches [where env = profile_env and cfg = default_config and w = new_world]
      a b p
    by (simp add: record_action_def new_world_def)
qed

lemma sanitize_keys:
  "map_of (sanitize c) ''sameSite'' = None \<and> map_of (sanitize c) ''storeId'' = None \<and>
   (\<forall>k. k \<noteq> ''sameSite'' \<and> k \<noteq> ''storeId'' \<longrightarrow> map_of (sanitize c) k = map_of c k)"
  by (simp add: sanitize_def AList.delete_conv)

lemma trace_add_cookies:
  "fst (add_cookies env (map Record cookies) w) = Inr () \<and>
   trace (snd (add_cookies env (map Record cookies) w)) =
     trace w @ map (\<lambda>c. AddCookie (sanitize c)) cookies"
proof (induction cookies arbitrary: w)
  case Nil
  show ?case by simp
next
  case (Cons c cookies)
  obtain r w1 where f: "driver_add_cookie env (sanitize c) w = (r, w1)"
    by (cases "driver_add_cookie env (sanitize c) w")
  have "trace w1 = trace w @ [AddCookie (sanitize c)]"
    using f by (auto simp: driver_add_cookie_def driver_call_def)
  then show ?case
    using f Cons.IH [of w1] by (cases r) auto
qed

text \<open>
  C6. With a cookie file that holds a list of records, and the navigation and the
  refresh going through, \<open>load_cookies\<close> returns \<open>True\<close> whatever the driver answers
  to the injections, and it attempts the injection of every record, in order, each
  without its \<open>sameSite\<close> and \<open>storeId\<close> fields and otherwise unchanged.
\<close>

theorem load_cookies_each_record:
  assumes "cookie_file w = Cookies (map Record cookies)"
    and "\<forall>t. get_ok (page_at env t) (cfg_base_url cfg)"
    and "\<forall>t. refresh_ok (page_at env t)"
  shows "fst (load_cookies env cfg w) = Inr True \<and>
         trace (snd (load_cookies env cfg w)) =
           trace w @ [CookiePathExists, Get (cfg_base_url cfg), Sleep 2000, ReadCookieFile] @
             map (\<lambda>c. AddCookie (sanitize c)) cookies @ [Refresh, Sleep 3000] \<and>
         (\<forall>c \<in> set cookies.
            map_of (sanitize c) ''sameSite'' = None \<and> map_of (sanitize c) ''storeId'' = None \<and>
            (\<forall>k. k \<noteq> ''sameSite'' \<and> k \<noteq> ''storeId'' \<longrightarrow> map_of (sanitize c) k = map_of c k))"
proof -
  let ?w2 = "record_action ReadCookieFile (sleep 2000 (driver_call env (Get (cfg_base_url cfg))
      (record_action CookiePathExists w)))"
  obtain w3 where ac: "add_cookies env (map Record cookies) ?w2 = (Inr (), w3)"
    and t3: "trace w3 = trace ?w2 @ map (\<lambda>c. AddCookie (sanitize c)) cookies"
    using trace_add_cookies [of env cookies ?w2]
    by (cases "add_cookies env (map Record cookies) ?w2") auto
  have body: "load_cookies_body env cfg (record_action CookiePathExists w) =
      (Inr True, sleep 3000 (driver_call env Refresh w3))"
    using assms ac
    by (simp add: load_cookies_body_def driver_get_def read_cookie_file_def driver_refresh_def
        sleep_def driver_call_def record_action_def)
  have lc: "load_cookies env cfg w = (Inr True, sleep 3000 (driver_call env Refresh w3))"
    using assms(1) body by (simp add: load_cookies_def Let_def record_action_def)
  have "trace (sleep 3000 (driver_call env Refresh w3)) =
      trace w @ [CookiePathExists, Get (cfg_base_url cfg), Sleep 2000, ReadCookieFile] @
             map (\<lambda>c. AddCookie (sanitize c)) cookies @ [Refresh, Sleep 3000]"
    using t3 by (simp add: sleep_def driver_call_def record_action_def)
  then show ?thesis
    using lc sanitize_keys by auto
qed

theorem load_cookies_each_record_witness:
  "cookie_file (new_world\<lparr>cookie_file := Cookies (map Record exported_cookies)\<rparr>) = Cookies (map Record exported_cookies) \<and>
   \<not> add_cookie_ok (page_at picky_env 2000) (sanitize (exported_cookies ! 1)) \<and>
   load_cookies picky_env default_config (new_world\<lparr>cookie_file := Cookies (map Record exported_cookies)\<rparr>) =
     (Inr True,
      \<lparr>now = 5000,
       trace = [CookiePathExists, Get ''https://www.tiktok.com'', Sleep 2000, ReadCookieFile,
          AddCookie [(''name'', ''sessionid''), (''value'', ''abc'')],
          AddCookie [(''name'', ''tt_csrf''), (''value'', ''x'')],
          AddCookie [(''name'', ''lang''), (''value'', ''en'')],
          Refresh, Sleep 3000],
       cookie_file = Cookies (map Record exported_cookies)\<rparr>)"
proof -
  have a: "cookie_file (new_world\<lparr>cookie_file := Cookies (map Record exported_cookies)\<rparr>) = Cookies (map Record exported_cookies)"
    by simp
  have b: "\<forall>t. get_ok (page_at picky_env t) (cfg_base_url default_config)"
    and c: "\<forall>t. refresh_ok (page_at picky_env t)"
    by (simp_all add: picky_env_def blank_env_def blank_page_def)
  have d: "load_cookies picky_env default_config (new_world\<lparr>cookie_file := Cookies (map Record exported_cookies)\<rparr>) =
     (Inr True,
      \<lparr>now = 5000,
       trace = [CookiePathExists, Get ''https://www.tiktok.com'', Sleep 2000, ReadCookieFile,
          AddCookie [(''name'', ''sessionid''), (''value'', ''abc'')],
          AddCookie [(''name'', ''tt_csrf''), (''value'', ''x'')],
          AddCookie [(''name'', ''lang''), (''value'', ''en'')],
          Refresh, Sleep 3000],
       cookie_file = Cookies (map Record exported_cookies)\<rparr>)"
    by (simp add: load_cookies_def load_cookies_body_def Let_def record_action_def driver_get_def
        driver_call_def sleep_def read_cookie_file_def driver_add_cookie_def driver_refresh_def
        sanitize_def AList.delete_eq exported_cookies_def picky_env_def blank_env_def
        blank_page_def new_world_def cfg_base_url_def default_config_def)
  have e: "\<not> add_cookie_ok (page_at picky_env 2000) (sanitize (exported_cookies ! 1))"
    by (simp add: picky_env_def blank_env_def blank_page_def sanitize_def AList.delete_eq
        exported_cookies_def)
  show ?thesis
    using load_cookies_each_record [OF a b c] d e by simp
qed

section \<open>Properties of the publish workflow\<close>




lemma scan_buttons_count:
  "snd (scan_buttons bs c) = (filter is_post_button bs \<noteq> [] \<and> c + length (filter is_post_button bs) \<ge> 3) \<and>
   (\<not> snd (scan_buttons bs c) \<longrightarrow> fst (scan_buttons bs c) = c + length (filter is_post_button bs))"
  by (induction bs arbitrary: c) auto

lemma scan_progress_reset:
  "scan_progress ps c = (if \<exists>t \<in> set (observed_texts ps). in_progress_text t then 0 else c)"
  by (induction ps arbitrary: c) (auto split: option.splits)

lemma upload_poll_returns:
  "fst (fst (upload_poll env c w)) =
     (post_buttons (page_at env (now w)) \<noteq> [] \<and> c + length (post_buttons (page_at env (now w))) \<ge> 3)"
proof (cases "find_all (page_at env (now w)) TagName ''button''")
  case None
  then show ?thesis
    by (simp add: upload_poll_def find_elements_def post_buttons_def Let_def split: prod.splits)
next
  case (Some bs)
  obtain c1 r where sb: "scan_buttons bs c = (c1, r)"
    by (cases "scan_buttons bs c")
  have "r = (filter is_post_button bs \<noteq> [] \<and> c + length (filter is_post_button bs) \<ge> 3)"
    using scan_buttons_count [of bs c] sb by simp
  then show ?thesis
    using Some sb
    by (simp add: upload_poll_def find_elements_def post_buttons_def Let_def split: prod.splits)
qed

lemma upload_poll_no_post:
  assumes "post_buttons (page_at env (now w)) = []"
  shows "\<exists>c' w'. upload_poll env c w = ((False, c'), w') \<and>
     trace w' = trace w @ [FindElements TagName ''button'', FindElements XPath edit_cover_xpath,
       FindElements XPath percent_xpath, Sleep 3000]"
proof -
  obtain b c' w' where u: "upload_poll env c w = ((b, c'), w')"
    by (cases "upload_poll env c w") auto
  have "\<not> b"
    using upload_poll_returns [of env c w] u assms by simp
  moreover have "trace w' = trace w @ [FindElements TagName ''button'', FindElements XPath edit_cover_xpath,
       FindElements XPath percent_xpath, Sleep 3000]"
    using u \<open>\<not> b\<close>
    by (auto simp: upload_poll_def find_elements_def driver_call_def sleep_def Let_def
        split: prod.splits if_splits)
  ultimately show ?thesis
    using u by simp
qed

lemma upload_poll_counter:
  assumes "\<not> fst (fst (upload_poll env c w))"
  shows "snd (fst (upload_poll env c w)) =
        (let t1 = now w + latency env (now w); t2 = t1 + latency env t1;
             c2 = c + length (post_buttons (page_at env (now w))) +
                  (if edit_cover_shown (page_at env t1) then 1 else 0)
         in case find_all (page_at env t2) XPath percent_xpath of
              None \<Rightarrow> c2
            | Some progress \<Rightarrow>
                if \<exists>t \<in> set (observed_texts progress). in_progress_text t then 0 else c2)"
proof -
  have nr: "\<not> (post_buttons (page_at env (now w)) \<noteq> [] \<and> c + length (post_buttons (page_at env (now w))) \<ge> 3)"
    using assms upload_poll_returns [of env c w] by simp
  show ?thesis
  proof (cases "find_all (page_at env (now w)) TagName ''button''")
    case None
    then show ?thesis
      by (auto simp: upload_poll_def find_elements_def post_buttons_def edit_cover_shown_def
          driver_call_def Let_def scan_progress_reset split: prod.splits option.splits)
  next
    case (Some bs)
    obtain c1 r where sb: "scan_buttons bs c = (c1, r)"
      by (cases "scan_buttons bs c")
    have r: "\<not> r"
      using scan_buttons_count [of bs c] sb nr Some by (simp add: post_buttons_def)
    then have c1: "c1 = c + length (filter is_post_button bs)"
      using scan_buttons_count [of bs c] sb by simp
    show ?thesis
      using Some sb r c1
      by (auto simp: upload_poll_def find_elements_def post_buttons_def edit_cover_shown_def
          driver_call_def Let_def scan_progress_reset split: prod.splits option.splits)
  qed
qed

lemma wait_for_upload_loop_true: "fst (wait_for_upload_loop env start_time timeout c w) = Inr True"
proof (induction env start_time timeout c w rule: wait_for_upload_loop.induct)
  case (1 env start_time timeout post_found_count w)
  show ?case
  proof (cases "int (now w) - int start_time < timeout * 1000")
    case False
    then show ?thesis
      by (subst wait_for_upload_loop.simps) simp
  next
    case True
    obtain b c' w' where u: "upload_poll env post_found_count w = ((b, c'), w')"
      by (cases "upload_poll env post_found_count w") auto
    show ?thesis
    proof (cases b)
      case True
      then show ?thesis
        using u \<open>int (now w) - int start_time < timeout * 1000\<close>
        by (subst wait_for_upload_loop.simps) simp
    next
      case False
      then have "fst (wait_for_upload_loop env start_time timeout c' w') = Inr True"
        using "1.IH" [of "(b, c')" w' b c'] u True by simp
      then show ?thesis
        using u True False
        by (subst wait_for_upload_loop.simps) simp
    qed
  qed
qed

lemma wait_for_upload_loop_no_post:
  assumes "\<forall>t. post_buttons (page_at env t) = []"
  shows "last (trace (snd (wait_for_upload_loop env start_time timeout c w))) = Log UploadWaitTimedOut \<and>
    (Log UploadCompleted \<notin> set (trace w) \<longrightarrow>
       Log UploadCompleted \<notin> set (trace (snd (wait_for_upload_loop env start_time timeout c w))))"
  using assms
proof (induction env start_time timeout c w rule: wait_for_upload_loop.induct)
  case (1 env start_time timeout post_found_count w)
  show ?case
  proof (cases "int (now w) - int start_time < timeout * 1000")
    case False
    then show ?thesis
      by (subst (1 2) wait_for_upload_loop.simps) (simp add: record_action_def)
  next
    case True
    obtain c' w' where u: "upload_poll env post_found_count w = ((False, c'), w')"
      and t: "trace w' = trace w @ [FindElements TagName ''button'', FindElements XPath edit_cover_xpath,
       FindElements XPath percent_xpath, Sleep 3000]"
      using upload_poll_no_post [of env w post_found_count] "1.prems" by auto
    have ih: "last (trace (snd (wait_for_upload_loop env start_time timeout c' w'))) = Log UploadWaitTimedOut \<and>
      (Log UploadCompleted \<notin> set (trace w') \<longrightarrow>
       Log UploadCompleted \<notin> set (trace (snd (wait_for_upload_loop env start_time timeout c' w'))))"
      using "1.IH" [of "(False, c')" w' False c'] u True "1.prems" by simp
    have eq: "wait_for_upload_loop env start_time timeout post_found_count w =
        wait_for_upload_loop env start_time timeout c' w'"
      using u True by (subst wait_for_upload_loop.simps) simp
    show ?thesis
      unfolding eq using ih t by simp
  qed
qed

lemma probe_success_none:
  assumes "\<forall>t. list_all (\<lambda>selector.
      case find_all (page_at env t) CssSelector selector of None \<Rightarrow> True | Some es \<Rightarrow> es = []) selectors"
  shows "fst (probe_success env selectors w) = False \<and>
    trace (snd (probe_success env selectors w)) = trace w @ map (FindElement CssSelector) selectors"
  using assms
proof (induction selectors arbitrary: w)
  case Nil
  show ?case by simp
next
  case (Cons selector selectors)
  have nf: "case find_all (page_at env (now w)) CssSelector selector of None \<Rightarrow> True | Some es \<Rightarrow> es = []"
    using Cons.prems by simp
  have f: "find_element env CssSelector selector w =
      (Inl WebDriverError, driver_call env (FindElement CssSelector selector) w)"
    using nf by (auto simp: find_element_def split: option.splits list.splits)
  have "\<forall>t. list_all (\<lambda>selector.
      case find_all (page_at env t) CssSelector selector of None \<Rightarrow> True | Some es \<Rightarrow> es = []) selectors"
    using Cons.prems by simp
  then have "fst (probe_success env selectors (driver_call env (FindElement CssSelector selector) w)) = False \<and>
    trace (snd (probe_success env selectors (driver_call env (FindElement CssSelector selector) w))) =
      trace (driver_call env (FindElement CssSelector selector) w) @ map (FindElement CssSelector) selectors"
    by (rule Cons.IH)
  then show ?case
    using f by (simp add: driver_call_def)
qed

lemma wait_for_post_complete_loop_not_false:
  "fst (wait_for_post_complete_loop env start_time timeout w) \<noteq> Inr False"
proof (induction env start_time timeout w rule: wait_for_post_complete_loop.induct)
  case (1 env start_time timeout w)
  show ?case
  proof (cases "int (now w) - int start_time < timeout * 1000")
    case False
    then show ?thesis
      by (subst wait_for_post_complete_loop.simps) simp
  next
    case True
    obtain r w1 where cu: "driver_current_url env w = (r, w1)"
      by (cases "driver_current_url env w")
    show ?thesis
    proof (cases r)
      case (Inl e)
      then show ?thesis
        using cu True by (subst wait_for_post_complete_loop.simps) simp
    next
      case (Inr url)
      show ?thesis
      proof (cases "sublist ''upload'' (lower url)")
        case False
        then show ?thesis
          using cu True Inr by (subst wait_for_post_complete_loop.simps) simp
      next
        case up: True
        obtain b w2 where ps: "probe_success env success_indicators w1 = (b, w2)"
          by (cases "probe_success env success_indicators w1")
        show ?thesis
        proof (cases b)
          case True
          then show ?thesis
            using cu \<open>int (now w) - int start_time < timeout * 1000\<close> Inr up ps
            by (subst wait_for_post_complete_loop.simps) simp
        next
          case False
          have "fst (wait_for_post_complete_loop env start_time timeout (sleep 2000 w2)) \<noteq> Inr False"
            using cu \<open>int (now w) - int start_time < timeout * 1000\<close> Inr up ps False
            by (intro "1.IH" [of r w1 url b w2]) auto
          then show ?thesis
            using cu True Inr up ps False
            by (subst wait_for_post_complete_loop.simps) simp
        qed
      qed
    qed
  qed
qed

lemma wait_for_post_complete_loop_no_sign:
  assumes "\<forall>t. no_completion_sign (page_at env t)"
  shows "fst (wait_for_post_complete_loop env start_time timeout w) = Inr True \<and>
    last (trace (snd (wait_for_post_complete_loop env start_time timeout w))) = Log PostNotConfirmed"
  using assms
proof (induction env start_time timeout w rule: wait_for_post_complete_loop.induct)
  case (1 env start_time timeout w)
  show ?case
  proof (cases "int (now w) - int start_time < timeout * 1000")
    case False
    then show ?thesis
      by (subst (1 2) wait_for_post_complete_loop.simps) (simp add: record_action_def)
  next
    case True
    obtain url where url: "current_url (page_at env (now w)) = Some url" "sublist ''upload'' (lower url)"
      using "1.prems" by (auto simp: no_completion_sign_def split: option.splits)
    let ?w1 = "driver_call env CurrentUrl w"
    have cu: "driver_current_url env w = (Inr url, ?w1)"
      using url by (simp add: driver_current_url_def)
    have "\<forall>t. list_all (\<lambda>selector.
      case find_all (page_at env t) CssSelector selector of None \<Rightarrow> True | Some es \<Rightarrow> es = []) success_indicators"
      using "1.prems" by (simp add: no_completion_sign_def)
    then have "fst (probe_success env success_indicators ?w1) = False"
      using probe_success_none [of env success_indicators ?w1] by simp
    then obtain w2 where ps: "probe_success env success_indicators ?w1 = (False, w2)"
      by (cases "probe_success env success_indicators ?w1") auto
    have ih: "fst (wait_for_post_complete_loop env start_time timeout (sleep 2000 w2)) = Inr True \<and>
      last (trace (snd (wait_for_post_complete_loop env start_time timeout (sleep 2000 w2)))) = Log PostNotConfirmed"
      using cu True url ps "1.prems"
      by (intro "1.IH" [of "Inr url" ?w1 url False w2]) auto
    have eq: "wait_for_post_complete_loop env start_time timeout w =
        wait_for_post_complete_loop env start_time timeout (sleep 2000 w2)"
      using cu True url ps by (subst wait_for_post_complete_loop.simps) simp
    show ?thesis
      unfolding eq by (rule ih)
  qed
qed

lemma upload_url_holds_upload:
  "sublist ''upload'' (lower ''https://www.tiktok.com/creator-center/upload'')"
  by code_simp

lemma blank_wait_for_upload:
  "wait_for_upload blank_env default_config (Some 5) new_world =
     (Inr True,
      \<lparr>now = 6000,
       trace = [FindElements TagName ''button'', FindElements XPath edit_cover_xpath,
                FindElements XPath percent_xpath, Sleep 3000,
                FindElements TagName ''button'', FindElements XPath edit_cover_xpath,
                FindElements XPath percent_xpath, Sleep 3000, Log UploadWaitTimedOut],
       cookie_file = Missing\<rparr>)"
  by (simp add: wait_for_upload_def upload_wait_timeout_def wait_for_upload_loop.simps
      upload_poll_def find_elements_def driver_call_def sleep_def record_action_def Let_def
      blank_env_def blank_page_def new_world_def)

lemma blank_wait_for_post_complete:
  "wait_for_post_complete blank_env 3 new_world =
     (Inr True,
      \<lparr>now = 9000,
       trace = Sleep 5000 # CurrentUrl # map (FindElement CssSelector) success_indicators @
               Sleep 2000 # CurrentUrl # map (FindElement CssSelector) success_indicators @
               [Sleep 2000, Log PostNotConfirmed],
       cookie_file = Missing\<rparr>)"
  by (simp add: wait_for_post_complete_def wait_for_post_complete_loop.simps
      driver_current_url_def find_element_def driver_call_def sleep_def record_action_def Let_def
      success_indicators_def upload_url_holds_upload blank_env_def blank_page_def new_world_def)

text \<open>
  C2. \<open>_wait_for_upload\<close> returns \<open>True\<close> in every environment, and
  \<open>_wait_for_post_complete\<close> never returns \<open>False\<close>; on a page that never shows a post
  button the upload wait ends through its timeout, and on a page that never gives a
  sign of completion the post wait ends through its timeout and returns \<open>True\<close>: the
  value is the one of a confirmed completion.
\<close>

theorem waits_report_success_on_timeout:
  "fst (wait_for_upload env cfg timeout w) = Inr True \<and>
   fst (wait_for_post_complete env post_timeout w) \<noteq> Inr False \<and>
   ((\<forall>t. post_buttons (page_at env t) = []) \<longrightarrow>
      last (trace (snd (wait_for_upload env cfg timeout w))) = Log UploadWaitTimedOut) \<and>
   ((\<forall>t. no_completion_sign (page_at env t)) \<longrightarrow>
      fst (wait_for_post_complete env post_timeout w) = Inr True \<and>
      last (trace (snd (wait_for_post_complete env post_timeout w))) = Log PostNotConfirmed)"
  using wait_for_upload_loop_true [of env "now w" "upload_wait_timeout cfg timeout" 0 w]
    wait_for_upload_loop_no_post [of env "now w" "upload_wait_timeout cfg timeout" 0 w]
    wait_for_post_complete_loop_not_false [of env "now (sleep 5000 w)" post_timeout "sleep 5000 w"]
    wait_for_post_complete_loop_no_sign [of env "now (sleep 5000 w)" post_timeout "sleep 5000 w"]
  by (simp add: wait_for_upload_def wait_for_post_complete_def Let_def)

theorem waits_report_success_on_timeout_witness:
  "(\<forall>t. post_buttons (page_at blank_env t) = []) \<and>
   (\<forall>t. no_completion_sign (page_at blank_env t)) \<and>
   fst (wait_for_upload blank_env default_config (Some 5) new_world) = Inr True \<and>
   last (trace (snd (wait_for_upload blank_env default_config (Some 5) new_world))) =
     Log UploadWaitTimedOut \<and>
   now (snd (wait_for_upload blank_env default_config (Some 5) new_world)) = 6000 \<and>
   fst (wait_for_post_complete blank_env 3 new_world) = Inr True \<and>
   last (trace (snd (wait_for_post_complete blank_env 3 new_world))) = Log PostNotConfirmed \<and>
   now (snd (wait_for_post_complete blank_env 3 new_world)) = 9000"
proof -
  have a: "\<forall>t. post_buttons (page_at blank_env t) = []"
    by (simp add: post_buttons_def blank_env_def blank_page_def)
  have b: "\<forall>t. no_completion_sign (page_at blank_env t)"
    by (simp add: no_completion_sign_def blank_env_def blank_page_def upload_url_holds_upload
        success_indicators_def)
  show ?thesis
    using waits_report_success_on_timeout [where env = blank_env and cfg = default_config
        and timeout = "Some 5" and post_timeout = 3 and w = new_world]
      a b blank_wait_for_upload blank_wait_for_post_complete
    by simp
qed

lemma is_post_button_post_button: "is_post_button post_button"
  by code_simp

lemma edit_cover_wait:
  "wait_for_upload edit_cover_env default_config (Some 6) new_world =
     (Inr True,
      \<lparr>now = 6000,
       trace = [FindElements TagName ''button'', FindElements XPath edit_cover_xpath,
                FindElements XPath percent_xpath, Sleep 3000,
                FindElements TagName ''button'', FindElements XPath edit_cover_xpath,
                FindElements XPath percent_xpath, Sleep 3000, Log UploadWaitTimedOut],
       cookie_file = Missing\<rparr>)"
  by (simp add: wait_for_upload_def upload_wait_timeout_def wait_for_upload_loop.simps
      upload_poll_def find_elements_def driver_call_def sleep_def record_action_def Let_def
      edit_cover_env_def blank_env_def blank_page_def new_world_def plain_element_def
      edit_cover_xpath_def percent_xpath_def)

lemma flicker_wait:
  "wait_for_upload flicker_env default_config (Some 12) new_world =
     (Inr True,
      \<lparr>now = 11000,
       trace = [FindElements TagName ''button'', FindElements XPath edit_cover_xpath,
                FindElements XPath percent_xpath, Sleep 3000,
                FindElements TagName ''button'', FindElements XPath edit_cover_xpath,
                FindElements XPath percent_xpath, Sleep 3000,
                FindElements TagName ''button'', FindElements XPath edit_cover_xpath,
                FindElements XPath percent_xpath, Sleep 3000,
                FindElements TagName ''button'', Log UploadCompleted, Sleep 2000],
       cookie_file = Missing\<rparr>)"
  by (simp add: wait_for_upload_def upload_wait_timeout_def wait_for_upload_loop.simps
      upload_poll_def find_elements_def driver_call_def sleep_def record_action_def Let_def
      flicker_env_def blank_env_def blank_page_def new_world_def is_post_button_post_button
      edit_cover_xpath_def percent_xpath_def)

text \<open>
  C3, as stated, fails in both directions. With the ``Edit cover'' marker shown at
  all times and no post button, the wait runs to its timeout of six seconds. With a
  post button that is there at the polls of seconds 0, 6 and 9 but not at the poll of
  second 3, and no ``Edit cover'' marker, the wait returns at the fourth poll, before
  its timeout of twelve seconds, the button never seen on three polls in a row.
\<close>

theorem upload_wait_not_as_stated:
  "(\<forall>t. edit_cover_shown (page_at edit_cover_env t)) \<and>
   last (trace (snd (wait_for_upload edit_cover_env default_config (Some 6) new_world))) =
     Log UploadWaitTimedOut \<and>
   Log UploadCompleted \<notin> set (trace (snd (wait_for_upload edit_cover_env default_config (Some 6) new_world))) \<and>
   now (snd (wait_for_upload edit_cover_env default_config (Some 6) new_world)) = 6000 \<and>
   (\<forall>t. \<not> edit_cover_shown (page_at flicker_env t)) \<and>
   post_buttons (page_at flicker_env 3000) = [] \<and>
   trace (snd (wait_for_upload flicker_env default_config (Some 12) new_world)) =
     [FindElements TagName ''button'', FindElements XPath edit_cover_xpath,
      FindElements XPath percent_xpath, Sleep 3000,
      FindElements TagName ''button'', FindElements XPath edit_cover_xpath,
      FindElements XPath percent_xpath, Sleep 3000,
      FindElements TagName ''button'', FindElements XPath edit_cover_xpath,
      FindElements XPath percent_xpath, Sleep 3000,
      FindElements TagName ''button'', Log UploadCompleted, Sleep 2000] \<and>
   now (snd (wait_for_upload flicker_env default_config (Some 12) new_world)) = 11000"
proof -
  have a: "\<forall>t. edit_cover_shown (page_at edit_cover_env t)"
    by (simp add: edit_cover_shown_def edit_cover_env_def blank_env_def blank_page_def
        plain_element_def)
  have b: "\<forall>t. \<not> edit_cover_shown (page_at flicker_env t)"
    by (simp add: edit_cover_shown_def flicker_env_def blank_env_def blank_page_def)
  have c: "post_buttons (page_at flicker_env 3000) = []"
    by (simp add: post_buttons_def flicker_env_def blank_env_def blank_page_def)
  show ?thesis
    using a b c by (simp add: edit_cover_wait flicker_wait)
qed

lemma upload_poll_returning:
  assumes "poll_returns env (now w, c)"
  shows "\<exists>c1. upload_poll env c w =
    ((True, c1),
     w\<lparr>now := now w + latency env (now w) + 2000,
       trace := trace w @ [FindElements TagName ''button'', Log UploadCompleted, Sleep 2000]\<rparr>)"
proof -
  obtain b c1 w1 where u: "upload_poll env c w = ((b, c1), w1)"
    by (cases "upload_poll env c w") auto
  have b: "b"
    using upload_poll_returns [of env c w] u assms by (simp add: poll_returns_def)
  have "w1 = w\<lparr>now := now w + latency env (now w) + 2000,
       trace := trace w @ [FindElements TagName ''button'', Log UploadCompleted, Sleep 2000]\<rparr>"
    using u b
    by (auto simp: upload_poll_def find_elements_def driver_call_def sleep_def record_action_def
        Let_def split: prod.splits if_splits)
  then show ?thesis
    using u b by simp
qed

lemma upload_poll_continuing:
  assumes "\<not> poll_returns env (now w, c)"
  shows "upload_poll env c w =
    ((False, snd (poll_step env (now w, c))),
     w\<lparr>now := fst (poll_step env (now w, c)), trace := trace w @ poll_calls\<rparr>)"
proof -
  obtain b c1 w1 where u: "upload_poll env c w = ((b, c1), w1)"
    by (cases "upload_poll env c w") auto
  have b: "\<not> b"
    using upload_poll_returns [of env c w] u assms by (simp add: poll_returns_def)
  have c1: "c1 = snd (poll_step env (now w, c))"
    using upload_poll_counter [of env c w] u b
    by (simp add: poll_step_def Let_def list_ex_iff split: option.splits)
  have "w1 = w\<lparr>now := fst (poll_step env (now w, c)), trace := trace w @ poll_calls\<rparr>"
    using u b
    by (auto simp: upload_poll_def find_elements_def driver_call_def sleep_def poll_step_def
        poll_calls_def Let_def split: prod.splits if_splits)
  then show ?thesis
    using u b c1 by simp
qed

lemma polls_on_iff:
  "polls_on env start_time timeout s k =
     (\<forall>j<k. in_window start_time timeout (fst (poll_state env j s)) \<and>
             \<not> poll_returns env (poll_state env j s))"
  by (auto simp: polls_on_def list_all_iff)

lemma polls_on_Suc:
  "polls_on env start_time timeout s (Suc k) =
     (in_window start_time timeout (fst s) \<and> \<not> poll_returns env s \<and>
      polls_on env start_time timeout (poll_step env s) k)"
  unfolding polls_on_iff by (auto simp: less_Suc_eq_0_disj)

lemma wait_for_upload_loop_returns:
  assumes "polls_on env start_time timeout (now w, c) k"
    and "in_window start_time timeout (fst (poll_state env k (now w, c)))"
    and "poll_returns env (poll_state env k (now w, c))"
  shows "wait_for_upload_loop env start_time timeout c w =
    (Inr True,
     w\<lparr>now := fst (poll_state env k (now w, c)) + latency env (fst (poll_state env k (now w, c))) + 2000,
       trace := trace w @ concat (replicate k poll_calls) @
         [FindElements TagName ''button'', Log UploadCompleted, Sleep 2000]\<rparr>)"
  using assms
proof (induction k arbitrary: c w)
  case 0
  obtain c1 where "upload_poll env c w =
    ((True, c1),
     w\<lparr>now := now w + latency env (now w) + 2000,
       trace := trace w @ [FindElements TagName ''button'', Log UploadCompleted, Sleep 2000]\<rparr>)"
    using upload_poll_returning [of env w c] 0 by auto
  then show ?case
    using 0 by (subst wait_for_upload_loop.simps) (simp add: in_window_def)
next
  case (Suc k)
  let ?w1 = "w\<lparr>now := fst (poll_step env (now w, c)), trace := trace w @ poll_calls\<rparr>"
  let ?c1 = "snd (poll_step env (now w, c))"
  have first: "in_window start_time timeout (now w)" "\<not> poll_returns env (now w, c)"
    and rest: "polls_on env start_time timeout (poll_step env (now w, c)) k"
    using Suc.prems(1) by (simp_all add: polls_on_Suc)
  have u: "upload_poll env c w = ((False, ?c1), ?w1)"
    using first(2) by (rule upload_poll_continuing)
  have "wait_for_upload_loop env start_time timeout ?c1 ?w1 =
    (Inr True,
     ?w1\<lparr>now := fst (poll_state env k (now ?w1, ?c1)) + latency env (fst (poll_state env k (now ?w1, ?c1))) + 2000,
       trace := trace ?w1 @ concat (replicate k poll_calls) @
         [FindElements TagName ''button'', Log UploadCompleted, Sleep 2000]\<rparr>)"
  proof (rule Suc.IH)
    show "polls_on env start_time timeout (now ?w1, ?c1) k"
      using rest by simp
    show "in_window start_time timeout (fst (poll_state env k (now ?w1, ?c1)))"
      using Suc.prems(2) by simp
    show "poll_returns env (poll_state env k (now ?w1, ?c1))"
      using Suc.prems(3) by simp
  qed
  then show ?case
    using u first(1)
    by (subst wait_for_upload_loop.simps) (simp add: in_window_def)
qed

lemma wait_for_upload_loop_times_out:
  assumes "polls_on env start_time timeout (now w, c) k"
    and "\<not> in_window start_time timeout (fst (poll_state env k (now w, c)))"
  shows "wait_for_upload_loop env start_time timeout c w =
    (Inr True,
     w\<lparr>now := fst (poll_state env k (now w, c)),
       trace := trace w @ concat (replicate k poll_calls) @ [Log UploadWaitTimedOut]\<rparr>)"
  using assms
proof (induction k arbitrary: c w)
  case 0
  then show ?case
    by (subst wait_for_upload_loop.simps) (simp add: in_window_def record_action_def)
next
  case (Suc k)
  let ?w1 = "w\<lparr>now := fst (poll_step env (now w, c)), trace := trace w @ poll_calls\<rparr>"
  let ?c1 = "snd (poll_step env (now w, c))"
  have first: "in_window start_time timeout (now w)" "\<not> poll_returns env (now w, c)"
    and rest: "polls_on env start_time timeout (poll_step env (now w, c)) k"
    using Suc.prems(1) by (simp_all add: polls_on_Suc)
  have u: "upload_poll env c w = ((False, ?c1), ?w1)"
    using first(2) by (rule upload_poll_continuing)
  have "wait_for_upload_loop env start_time timeout ?c1 ?w1 =
    (Inr True,
     ?w1\<lparr>now := fst (poll_state env k (now ?w1, ?c1)),
       trace := trace ?w1 @ concat (replicate k poll_calls) @ [Log UploadWaitTimedOut]\<rparr>)"
  proof (rule Suc.IH)
    show "polls_on env start_time timeout (now ?w1, ?c1) k"
      using rest by simp
    show "\<not> in_window start_time timeout (fst (poll_state env k (now ?w1, ?c1)))"
      using Suc.prems(2) by simp
  qed
  then show ?case
    using u first(1)
    by (subst wait_for_upload_loop.simps) (simp add: in_window_def)
qed

lemma poll_state_time: "fst s + 3000 * k \<le> fst (poll_state env k s)"
proof (induction k arbitrary: s)
  case 0
  show ?case by simp
next
  case (Suc k)
  have "fst s + 3000 \<le> fst (poll_step env s)"
    by (cases s) (simp add: poll_step_def Let_def)
  moreover have "fst (poll_step env s) + 3000 * k \<le> fst (poll_state env k (poll_step env s))"
    by (rule Suc.IH)
  ultimately show ?case by simp
qed

lemma polls_end:
  "\<exists>n. polls_on env start_time timeout s n \<and>
     (\<not> in_window start_time timeout (fst (poll_state env n s)) \<or> poll_returns env (poll_state env n s))"
proof -
  let ?Q = "\<lambda>n. \<not> in_window start_time timeout (fst (poll_state env n s)) \<or>
      poll_returns env (poll_state env n s)"
  let ?m = "nat (timeout * 1000 + int start_time)"
  have "int (fst s) + 3000 * int ?m \<le> int (fst (poll_state env ?m s))"
    using poll_state_time [of s ?m env] by linarith
  moreover have "0 \<le> int (fst s)"
    by simp
  ultimately have "timeout * 1000 + int start_time \<le> int (fst (poll_state env ?m s))"
    by (cases "0 \<le> timeout * 1000 + int start_time") simp_all
  then have "\<not> in_window start_time timeout (fst (poll_state env ?m s))"
    by (simp add: in_window_def)
  then have "?Q ?m" by simp
  then obtain n where n: "?Q n" "\<forall>j<n. \<not> ?Q j"
    using exists_least_iff [of ?Q] by auto
  have "polls_on env start_time timeout s n"
    using n(2) by (simp add: polls_on_iff)
  then show ?thesis
    using n(1) by blast
qed

lemma flicker_steps:
  "poll_step flicker_env (0, 0) = (3000, 1)"
  "poll_step flicker_env (3000, Suc 0) = (6000, 1)"
  "poll_step flicker_env (6000, Suc 0) = (9000, 2)"
  by (simp_all add: poll_step_def post_buttons_def edit_cover_shown_def Let_def flicker_env_def
      blank_env_def blank_page_def is_post_button_post_button edit_cover_xpath_def
      percent_xpath_def)

lemma edit_cover_steps:
  "poll_step edit_cover_env (0, 0) = (3000, 1)"
  "poll_step edit_cover_env (3000, Suc 0) = (6000, 2)"
  by (simp_all add: poll_step_def post_buttons_def edit_cover_shown_def Let_def edit_cover_env_def
      blank_env_def blank_page_def plain_element_def edit_cover_xpath_def percent_xpath_def)

text \<open>
  C3, amended. \<open>_wait_for_upload\<close> starts its counter at zero and polls from the
  time of the call. If the polls before poll \<open>k\<close> all run and do not return, and poll
  \<open>k\<close> starts within the timeout on a page with a post button (text \<open>post\<close> once
  stripped and lower-cased, displayed, enabled) that brings the counter to three, the
  wait returns at poll \<open>k\<close>, after the lookup of the buttons and a sleep of two
  seconds; if instead poll \<open>k\<close> would start at or after the timeout, the wait ends
  there through its timeout. One of the two happens. Between polls the counter gains
  the post buttons seen, in one poll or over polls that need not follow one another,
  and one for a displayed ``Edit cover'' marker, and an observed text with \<open>%\<close>
  other than \<open>100%\<close> puts it back to zero. The marker alone never ends the wait: on a
  page that never has a post button the wait ends through its timeout.
\<close>

theorem upload_wait_counter:
  "(polls_on env (now w) (upload_wait_timeout cfg timeout) (now w, 0) k \<and>
    in_window (now w) (upload_wait_timeout cfg timeout) (fst (poll_state env k (now w, 0))) \<and>
    poll_returns env (poll_state env k (now w, 0)) \<longrightarrow>
      wait_for_upload env cfg timeout w =
        (Inr True,
         w\<lparr>now := fst (poll_state env k (now w, 0)) +
                  latency env (fst (poll_state env k (now w, 0))) + 2000,
           trace := trace w @ concat (replicate k poll_calls) @
             [FindElements TagName ''button'', Log UploadCompleted, Sleep 2000]\<rparr>)) \<and>
   (polls_on env (now w) (upload_wait_timeout cfg timeout) (now w, 0) k \<and>
    \<not> in_window (now w) (upload_wait_timeout cfg timeout) (fst (poll_state env k (now w, 0))) \<longrightarrow>
      wait_for_upload env cfg timeout w =
        (Inr True,
         w\<lparr>now := fst (poll_state env k (now w, 0)),
           trace := trace w @ concat (replicate k poll_calls) @ [Log UploadWaitTimedOut]\<rparr>)) \<and>
   (\<exists>n. polls_on env (now w) (upload_wait_timeout cfg timeout) (now w, 0) n \<and>
        (\<not> in_window (now w) (upload_wait_timeout cfg timeout) (fst (poll_state env n (now w, 0))) \<or>
         poll_returns env (poll_state env n (now w, 0)))) \<and>
   ((\<forall>t. post_buttons (page_at env t) = []) \<longrightarrow>
      last (trace (snd (wait_for_upload env cfg timeout w))) = Log UploadWaitTimedOut)"
  using wait_for_upload_loop_returns [of env "now w" "upload_wait_timeout cfg timeout" w 0 k]
    wait_for_upload_loop_times_out [of env "now w" "upload_wait_timeout cfg timeout" w 0 k]
    polls_end [of env "now w" "upload_wait_timeout cfg timeout" "(now w, 0)"]
    wait_for_upload_loop_no_post [of env "now w" "upload_wait_timeout cfg timeout" 0 w]
  by (simp add: wait_for_upload_def)

theorem upload_wait_counter_witness:
  "polls_on flicker_env 0 12 (0, 0) 3 \<and> in_window 0 12 9000 \<and>
   poll_state flicker_env 3 (0, 0) = (9000, 2) \<and> poll_returns flicker_env (9000, 2) \<and>
   wait_for_upload flicker_env default_config (Some 12) new_world =
     (Inr True,
      \<lparr>now = 11000,
       trace = poll_calls @ poll_calls @ poll_calls @
               [FindElements TagName ''button'', Log UploadCompleted, Sleep 2000],
       cookie_file = Missing\<rparr>) \<and>
   polls_on edit_cover_env 0 6 (0, 0) 2 \<and> \<not> in_window 0 6 6000 \<and>
   poll_state edit_cover_env 2 (0, 0) = (6000, 2) \<and>
   wait_for_upload edit_cover_env default_config (Some 6) new_world =
     (Inr True,
      \<lparr>now = 6000, trace = poll_calls @ poll_calls @ [Log UploadWaitTimedOut],
       cookie_file = Missing\<rparr>)"
proof -
  have three: "(3::nat) = Suc (Suc (Suc 0))" and two: "(2::nat) = Suc (Suc 0)"
    by simp_all
  have fb: "post_buttons (page_at flicker_env t) = (if 3000 \<le> t \<and> t < 6000 then [] else [post_button])" for t
    by (simp add: post_buttons_def flicker_env_def blank_env_def blank_page_def
        is_post_button_post_button)
  have eb: "post_buttons (page_at edit_cover_env t) = []" for t
    by (simp add: post_buttons_def edit_cover_env_def blank_env_def blank_page_def)
  have a: "polls_on flicker_env 0 12 (0, 0) 3"
    unfolding polls_on_iff three
    by (simp add: less_Suc_eq in_window_def poll_returns_def fb flicker_steps)
  have b: "in_window 0 12 9000" and b': "\<not> in_window 0 6 6000"
    by (simp_all add: in_window_def)
  have c: "poll_state flicker_env 3 (0, 0) = (9000, 2)"
    unfolding three by (simp add: flicker_steps)
  have d: "poll_returns flicker_env (9000, 2)"
    by (simp add: poll_returns_def fb)
  have e: "polls_on edit_cover_env 0 6 (0, 0) 2"
    unfolding polls_on_iff two
    by (simp add: less_Suc_eq in_window_def poll_returns_def eb edit_cover_steps)
  have f: "poll_state edit_cover_env 2 (0, 0) = (6000, 2)"
    unfolding two by (simp add: edit_cover_steps)
  have t: "upload_wait_timeout default_config (Some 12) = 12"
    "upload_wait_timeout default_config (Some 6) = 6"
    by (simp_all add: upload_wait_timeout_def)
  have r: "concat (replicate 3 poll_calls) = poll_calls @ poll_calls @ poll_calls"
    "concat (replicate 2 poll_calls) = poll_calls @ poll_calls"
    by (simp_all add: numeral_3_eq_3 numeral_2_eq_2)
  have l: "latency flicker_env 9000 = 0"
    by (simp add: flicker_env_def blank_env_def)
  show ?thesis
    using upload_wait_counter [where env = flicker_env and cfg = default_config
        and timeout = "Some 12" and w = new_world and k = 3]
      upload_wait_counter [where env = edit_cover_env and cfg = default_config
        and timeout = "Some 6" and w = new_world and k = 2]
      a b b' c d e f
    by (simp add: t l r new_world_def)
qed

end
